theory Spec2Isabelle
  imports Complex_Main
begin

section \<open>The recording composable \<open>useMediaRecorder\<close>: data model\<close>

text \<open>
  The composable \<open>useMediaRecorder\<close> (file \<open>composables/useMediaRecorder.ts\<close>) keeps its
  state in reactive refs and in variables of the enclosing closure. The embedding puts all
  of them into one record, \<open>session\<close>, and turns every function and every event handler
  of the source into a function from \<open>session\<close> to \<open>session\<close>.

  JavaScript numbers are IEEE doubles. A number is a real that is a double, and every
  arithmetic operation of the source on non-integers is the exact operation followed by
  the rounding \<open>fl\<close> of the next subsection.
\<close>

subsection \<open>JavaScript numbers\<close>

text \<open>
  The doubles are the reals \<open>n * 2 ^ e\<close> with \<open>\<bar>n\<bar> < 2 ^ 53\<close> and \<open>- 1074 \<le> e\<close>. \<open>fl v\<close> is
  the double nearest to \<open>v\<close>, the one with the even significand when two are equally near
  (the rounding of IEEE 754 that JavaScript uses for \<open>+\<close>, \<open>-\<close>, \<open>*\<close>, \<open>/\<close> and for decimal
  literals). \<open>exponent v\<close> is the binary exponent of \<open>v\<close>, not below \<open>- 1022\<close>, so that
  numbers below \<open>2 ^ - 1022\<close> are rounded to multiples of \<open>2 ^ - 1074\<close>. Numbers beyond the
  largest double (about \<open>1.8 * 10 ^ 308\<close>) keep being rounded to 53 bits: \<open>Infinity\<close>,
  \<open>NaN\<close> and the sign of zero are left out. The layouts are fractions of the canvas and
  the sizes are pixel counts, far from that range.
\<close>

text \<open>
  \<open>round_even v\<close> is the integer nearest to \<open>v\<close>, the even one of two equally near. \<open>up v\<close>
  counts the halvings that bring \<open>v \<ge> 1\<close> below 2, and \<open>down n v\<close> the doublings, at most
  \<open>n\<close>, that bring \<open>v < 1\<close> to 1 or above.
\<close>

definition round_even :: "real \<Rightarrow> int" where
  "round_even v =
     (let n = \<lfloor>v\<rfloor>; r = v - of_int n
      in if r < 1 / 2 then n else if 1 / 2 < r then n + 1 else if even n then n else n + 1)"

function up :: "real \<Rightarrow> nat" where
  "up v = (if 2 \<le> v then Suc (up (v / 2)) else 0)"
  by pat_completeness auto
termination
  by (relation "measure (\<lambda>v. nat \<lfloor>v\<rfloor>)") (auto, linarith)

fun down :: "nat \<Rightarrow> real \<Rightarrow> nat" where
  "down 0 v = 0"
| "down (Suc n) v = (if v < 1 then Suc (down n (2 * v)) else 0)"

definition exponent :: "real \<Rightarrow> int" where
  "exponent v = (if 1 \<le> \<bar>v\<bar> then int (up \<bar>v\<bar>) else - int (down 1022 \<bar>v\<bar>))"

definition fl :: "real \<Rightarrow> real" where
  "fl v = (let q = 2 powi (exponent v - 52) in of_int (round_even (v / q)) * q)"

subsection \<open>Layout\<close>

text \<open>The object literal \<open>{ x, y, size }\<close> (lines 24, 25 and the argument of \<open>setWebcamLayout\<close>).\<close>

record layout =
  layout_x :: real
  layout_y :: real
  layout_size :: real

text \<open>The literal \<open>0.15\<close> of line 28 is the double nearest to 15/100.\<close>

definition LERP_FACTOR :: real where
  "LERP_FACTOR = fl (15 / 100)"

text \<open>
  One line of the interpolation (lines 128 to 130): \<open>c += (t - c) * LERP_FACTOR\<close>, that is
  \<open>c = c + ((t - c) * LERP_FACTOR)\<close> with its three operations on doubles.
\<close>

definition lerp :: "real \<Rightarrow> real \<Rightarrow> real" where
  "lerp c t = fl (c + fl (fl (t - c) * LERP_FACTOR))"

subsection \<open>Platform objects\<close>

text \<open>\<open>MediaRecorder.state\<close>.\<close>

datatype recorder_state = Inactive | Recording | Paused

text \<open>
  A \<open>MediaRecorder\<close> with the handlers \<open>startRecording\<close> attaches to it. The handler
  \<open>onstop\<close> closes over the constant \<open>mimeType\<close> of the call that created the recorder;
  \<open>rec_mime\<close> is that captured value. \<open>rec_mimeType\<close> is the recorder's own attribute
  \<open>mimeType\<close> (read in line 349): the container and codecs it records with.
\<close>

record recorder =
  rec_state :: recorder_state
  rec_mime :: string
  rec_mimeType :: string

text \<open>A \<open>Blob\<close>: its size in bytes and its declared content type.\<close>

record blob =
  blob_size :: nat
  blob_type :: string

text \<open>\<open>MediaTrackSettings\<close> of the display video track; a missing field is \<open>None\<close>.\<close>

record track_settings =
  settings_width :: "nat option"
  settings_height :: "nat option"

text \<open>The stream \<open>getDisplayMedia\<close> returns: its video tracks and the number of audio tracks.\<close>

record display_stream =
  videoTracks :: "track_settings list"
  audioTracks :: nat

text \<open>
  The tracks that can end up in the stream handed to the recorder: the first video track of
  the display stream, the track of the canvas, and the single track of the mixer's
  destination node, with the sources connected to it (system audio, microphone).
\<close>

datatype track = RawDisplayVideo | CanvasVideo | MixedAudio bool bool

fun is_video :: "track \<Rightarrow> bool" where
  "is_video RawDisplayVideo = True"
| "is_video CanvasVideo = True"
| "is_video (MixedAudio sys mic) = False"

text \<open>
  The settlement of the promise a call of \<open>stopRecording\<close> returns: the blob it resolves
  with, or the message of the \<open>Error\<close> it rejects with.
\<close>

datatype outcome = Resolved blob | Rejected string

text \<open>
  Observable effects, in the order they happen: a run of \<open>cleanup\<close>, and the settlement of
  the promise of the \<open>stopRecording\<close> call with the given number.
\<close>

datatype effect = Cleanup | Settled nat outcome

text \<open>
  A thrown value or a rejection reason: an \<open>Error\<close> object (a \<open>DOMException\<close> is one) with
  its name and message, or any other value, given by its conversion to a string.
\<close>

datatype thrown = ErrorObj string string | OtherValue string

text \<open>\<open>err instanceof Error ? err.message : d\<close>.\<close>

fun message_or :: "thrown \<Rightarrow> string \<Rightarrow> string" where
  "message_or (ErrorObj n m) d = m"
| "message_or (OtherValue v) d = d"

text \<open>String concatenation with a thrown value, \<open>'' + err\<close> (\<open>Error.prototype.toString\<close>).\<close>

fun String :: "thrown \<Rightarrow> string" where
  "String (ErrorObj n m) = (if n = [] then m else if m = [] then n else n @ '': '' @ m)"
| "String (OtherValue v) = v"

text \<open>\<open>new Error(m)\<close>.\<close>

definition new_Error :: "string \<Rightarrow> thrown" where
  "new_Error m = ErrorObj ''Error'' m"

text \<open>What \<open>console.warn\<close> and \<open>console.error\<close> print (the \<open>console.log\<close> lines are left out).\<close>

datatype console_entry =
  ConsoleWarn string "thrown option"
| ConsoleError string "thrown option"

text \<open>What one drawn frame paints: the calls of \<open>ctx.drawImage\<close>.\<close>

datatype draw = DrawBackground nat nat | DrawOverlay real real real

text \<open>
  One run of \<open>startCompositingLoop\<close>: the canvas size it read, whether \<open>camVideo\<close> is an
  element, and its local variable \<open>lastFrameTime\<close>.
\<close>

record loop =
  loop_cw :: nat
  loop_ch :: nat
  loop_camVideo :: bool
  lastFrameTime :: real

subsection \<open>The state of the composable\<close>

text \<open>
  Lines 4 to 32. \<open>stopResolve\<close> and \<open>stopReject\<close> hold closures over the \<open>resolve\<close> and
  \<open>reject\<close> of one promise; the model stores the number of that promise. A stream is held
  or not; a held webcam stream has a number. The fields from \<open>intervals\<close> on are the
  platform's side: the running intervals, the animation-frame callbacks waiting to run
  (handle and loop), the next free handle, the compositing loops started so far, the pending
  timeouts of \<open>stopRecording\<close>, and what has been observed (drawn frames, effects, console).
\<close>

record session =
  isRecording :: bool
  recordingTime :: nat
  error :: "string option"
  previewUrl :: "blob option"
  isBrowserSupported :: bool
  webcamEnabled :: bool
  webcamStream :: "nat option"
  mediaRecorder :: "recorder option"
  chunks :: "nat list"
  mediaStream :: "track list option"
  timerInterval :: "nat option"
  stopResolve :: "nat option"
  stopReject :: "nat option"
  audioContext :: bool
  currentLayout :: layout
  targetLayout :: layout
  animationFrameId :: "nat option"
  displayVideoEl :: bool
  webcamVideoEl :: bool
  displayStream :: "display_stream option"
  intervals :: "nat list"
  intervalNext :: nat
  rafPending :: "(nat \<times> nat) list"
  rafNext :: nat
  loops :: "loop list"
  timeouts3000 :: nat
  timeouts500 :: nat
  frames :: "draw list list"
  trace :: "effect list"
  console :: "console_entry list"

text \<open>
  The state right after \<open>useMediaRecorder()\<close> returns, given the browser check's result.
  The literals \<open>0.1\<close>, \<open>0.9\<close> and \<open>0.09\<close> of lines 24 and 25 are doubles.
\<close>

definition default_layout :: layout where
  "default_layout =
     \<lparr>layout_x = fl (1 / 10), layout_y = fl (9 / 10), layout_size = fl (9 / 100)\<rparr>"

definition init :: "string option \<Rightarrow> session" where
  "init browserCheck =
     \<lparr>isRecording = False, recordingTime = 0, error = browserCheck, previewUrl = None,
      isBrowserSupported = (browserCheck = None), webcamEnabled = True, webcamStream = None,
      mediaRecorder = None, chunks = [], mediaStream = None, timerInterval = None,
      stopResolve = None, stopReject = None, audioContext = False,
      currentLayout = default_layout, targetLayout = default_layout,
      animationFrameId = None, displayVideoEl = False, webcamVideoEl = False,
      displayStream = None, intervals = [], intervalNext = 0, rafPending = [], rafNext = 0, loops = [],
      timeouts3000 = 0, timeouts500 = 0, frames = [], trace = [], console = []\<rparr>"

section \<open>Layout model\<close>

text \<open>\<open>setWebcamLayout\<close> (lines 582 to 586) copies the three fields into \<open>targetLayout\<close>.\<close>

definition setWebcamLayout :: "layout \<Rightarrow> session \<Rightarrow> session" where
  "setWebcamLayout l s =
     s\<lparr>targetLayout := (targetLayout s)\<lparr>layout_x := layout_x l, layout_y := layout_y l,
                                          layout_size := layout_size l\<rparr>\<rparr>"

text \<open>The interpolation of a drawn frame (lines 128 to 130), the spec's \<open>step()\<close>.\<close>

definition step :: "session \<Rightarrow> session" where
  "step s =
     s\<lparr>currentLayout := (currentLayout s)
        \<lparr>layout_x := lerp (layout_x (currentLayout s)) (layout_x (targetLayout s)),
         layout_y := lerp (layout_y (currentLayout s)) (layout_y (targetLayout s)),
         layout_size := lerp (layout_size (currentLayout s)) (layout_size (targetLayout s))\<rparr>\<rparr>"

section \<open>Timer, webcam controller, cleanup\<close>

text \<open>\<open>startTimer\<close> and \<open>stopTimer\<close> (lines 484 to 496), and one tick of an interval.\<close>

definition startTimer :: "session \<Rightarrow> session" where
  "startTimer s =
     s\<lparr>recordingTime := 0, timerInterval := Some (intervalNext s),
       intervals := intervals s @ [intervalNext s], intervalNext := Suc (intervalNext s)\<rparr>"

definition stopTimer :: "session \<Rightarrow> session" where
  "stopTimer s =
     (case timerInterval s of
        Some i \<Rightarrow> s\<lparr>intervals := removeAll i (intervals s), timerInterval := None\<rparr>
      | None \<Rightarrow> s)"

definition tick :: "nat \<Rightarrow> session \<Rightarrow> session" where
  "tick i s = (if i \<in> set (intervals s) then s\<lparr>recordingTime := Suc (recordingTime s)\<rparr> else s)"

text \<open>
  \<open>initWebcam\<close> (lines 70 to 83). The argument is what \<open>getUserMedia\<close> for the camera
  settles with: a rejection reason or a stream.
\<close>

definition initWebcam :: "thrown + nat \<Rightarrow> session \<Rightarrow> session" where
  "initWebcam cam s =
     (case cam of
        Inr stream \<Rightarrow> s\<lparr>webcamStream := Some stream\<rparr>
      | Inl e \<Rightarrow> s\<lparr>console := console s @ [ConsoleWarn ''Could not access webcam:'' (Some e)],
                    webcamEnabled := False\<rparr>)"

text \<open>\<open>stopWebcam\<close> (lines 85 to 90) and \<open>toggleWebcam\<close> (lines 92 to 100).\<close>

definition stopWebcam :: "session \<Rightarrow> session" where
  "stopWebcam s = (case webcamStream s of Some stream \<Rightarrow> s\<lparr>webcamStream := None\<rparr> | None \<Rightarrow> s)"

definition toggleWebcam :: "thrown + nat \<Rightarrow> session \<Rightarrow> session" where
  "toggleWebcam cam s =
     (case webcamStream s of
        Some stream \<Rightarrow> (stopWebcam s)\<lparr>webcamEnabled := False\<rparr>
      | None \<Rightarrow> initWebcam cam (s\<lparr>webcamEnabled := True\<rparr>))"

text \<open>
  The platform's \<open>requestAnimationFrame\<close> and \<open>cancelAnimationFrame\<close>. A request for a
  callback of loop \<open>l\<close> returns a fresh handle; cancelling removes the callback with that
  handle.
\<close>

definition requestAnimationFrame :: "nat \<Rightarrow> session \<Rightarrow> nat \<times> session" where
  "requestAnimationFrame l s =
     (rafNext s, s\<lparr>rafPending := rafPending s @ [(rafNext s, l)], rafNext := Suc (rafNext s)\<rparr>)"

definition cancelAnimationFrame :: "nat \<Rightarrow> session \<Rightarrow> session" where
  "cancelAnimationFrame h s = s\<lparr>rafPending := filter (\<lambda>c. fst c \<noteq> h) (rafPending s)\<rparr>"

text \<open>
  \<open>cleanup\<close> (lines 498 to 534). \<open>teardown\<close> is its body; \<open>cleanup\<close> notes the run in the
  trace first.
\<close>

definition teardown :: "session \<Rightarrow> session" where
  "teardown s =
     (let s = (case animationFrameId s of
                 Some h \<Rightarrow> (cancelAnimationFrame h s)\<lparr>animationFrameId := None\<rparr>
               | None \<Rightarrow> s);
          s = (if displayVideoEl s then s\<lparr>displayVideoEl := False\<rparr> else s);
          s = (if webcamVideoEl s then s\<lparr>webcamVideoEl := False\<rparr> else s);
          s = (case displayStream s of Some d \<Rightarrow> s\<lparr>displayStream := None\<rparr> | None \<Rightarrow> s);
          s = (case mediaStream s of Some m \<Rightarrow> s\<lparr>mediaStream := None\<rparr> | None \<Rightarrow> s);
          s = (if audioContext s then s\<lparr>audioContext := False\<rparr> else s)
      in stopWebcam (stopTimer s))"

definition cleanup :: "session \<Rightarrow> session" where
  "cleanup s = teardown (s\<lparr>trace := trace s @ [Cleanup]\<rparr>)"

text \<open>The \<open>onUnmounted\<close> hook (lines 564 to 567).\<close>

definition onUnmounted :: "session \<Rightarrow> session" where
  "onUnmounted s = stopWebcam (cleanup s)"

section \<open>Compositor\<close>

definition FRAME_INTERVAL :: real where
  "FRAME_INTERVAL = fl (1000 / 30)"

text \<open>
  \<open>compositeFrame\<close> (lines 115 to 181) of loop \<open>l\<close>, called with the frame's timestamp;
  \<open>readyState\<close> is what \<open>camVideo.readyState\<close> reads at that moment. A drawn frame paints
  the background, runs the interpolation and paints the overlay under the guard of line 133.
  Callbacks are requested for loops that were started only; for any other \<open>l\<close> the state
  stays as it is. The subtraction of line 119 and the three products of lines 135 to 137
  are operations on doubles.
\<close>

definition compositeFrame :: "nat \<Rightarrow> real \<Rightarrow> nat \<Rightarrow> session \<Rightarrow> session" where
  "compositeFrame l timestamp readyState s =
     (if length (loops s) \<le> l then s
      else
        let lp = loops s ! l;
            (h, s) = requestAnimationFrame l s;
            s = s\<lparr>animationFrameId := Some h\<rparr>
        in if fl (timestamp - lastFrameTime lp) < FRAME_INTERVAL then s
           else
             let s = s\<lparr>loops := (loops s)[l := lp\<lparr>lastFrameTime := timestamp\<rparr>]\<rparr>;
                 cw = loop_cw lp;
                 ch = loop_ch lp;
                 s = step s;
                 overlay =
                   (if loop_camVideo lp \<and> readyState \<ge> 2 \<and> webcamStream s \<noteq> None then
                      let bubbleRadius = fl (real (min cw ch) * layout_size (currentLayout s));
                          cx = fl (real cw * layout_x (currentLayout s));
                          cy = fl (real ch * layout_y (currentLayout s))
                      in [DrawOverlay cx cy bubbleRadius]
                    else []);
                 s = s\<lparr>frames := frames s @ [DrawBackground cw ch # overlay]\<rparr>;
                 (h, s) = requestAnimationFrame l s
             in s\<lparr>animationFrameId := Some h\<rparr>)"

text \<open>
  One animation frame of the platform: the callbacks requested before the frame run in
  order, all with the same timestamp; the ones they request wait for the next frame.
\<close>

definition animationFrame :: "real \<Rightarrow> nat \<Rightarrow> session \<Rightarrow> session" where
  "animationFrame timestamp readyState s =
     fold (\<lambda>c. compositeFrame (snd c) timestamp readyState) (rafPending s) (s\<lparr>rafPending := []\<rparr>)"

text \<open>
  \<open>startCompositingLoop\<close> (lines 102 to 184): a new loop with \<open>lastFrameTime = 0\<close>, and the
  first request of line 183, whose handle is dropped.
\<close>

definition startCompositingLoop :: "nat \<Rightarrow> nat \<Rightarrow> bool \<Rightarrow> session \<Rightarrow> session" where
  "startCompositingLoop cw ch camVideo s =
     (let l = length (loops s);
          s = s\<lparr>loops := loops s @ [\<lparr>loop_cw = cw, loop_ch = ch, loop_camVideo = camVideo,
                                       lastFrameTime = 0\<rparr>]\<rparr>
      in snd (requestAnimationFrame l s))"

text \<open>
  The size of the canvas (lines 260 to 282). \<open>or_default v d\<close> is \<open>v || d\<close> on an optional
  number: a missing value and 0 give \<open>d\<close>. \<open>Math_round\<close> is \<open>Math.round\<close>, which gives the
  integer nearest to its argument, the larger one of two equally near, without rounding
  error. Its argument is a double: the two divisions and the two products of lines 272 to
  274 are operations on doubles. A width or height is an integer; it is a double when it
  is below \<open>2 ^ 53\<close>.
\<close>

definition or_default :: "nat option \<Rightarrow> nat \<Rightarrow> nat" where
  "or_default v d = (case v of None \<Rightarrow> d | Some n \<Rightarrow> if n = 0 then d else n)"

definition Math_round :: "real \<Rightarrow> int" where
  "Math_round v = \<lfloor>v + 1 / 2\<rfloor>"

definition MAX_WIDTH :: nat where
  "MAX_WIDTH = 1920"

definition MAX_HEIGHT :: nat where
  "MAX_HEIGHT = 1080"

definition canvas_size :: "track_settings \<Rightarrow> nat \<times> nat" where
  "canvas_size settings =
     (let rawWidth = or_default (settings_width settings) 1920;
          rawHeight = or_default (settings_height settings) 1080;
          width = rawWidth;
          height = rawHeight
      in if width > MAX_WIDTH \<or> height > MAX_HEIGHT then
           let ratio = min (fl (real MAX_WIDTH / real width)) (fl (real MAX_HEIGHT / real height))
           in (nat (Math_round (fl (real width * ratio))),
               nat (Math_round (fl (real height * ratio))))
         else (width, height))"

section \<open>Capture session: start\<close>

text \<open>
  What the platform answers during one call of \<open>startRecording\<close>: the three acquisitions (a
  rejection reason or a stream), the two \<open>play()\<close> calls (a rejection reason, if any),
  whether the canvas stream has a video track, \<open>MediaRecorder.isTypeSupported\<close>, what
  the two constructor calls and \<open>start()\<close> throw, if anything, and the \<open>mimeType\<close> of a
  recorder constructed without options (the platform's default).
\<close>

record env =
  displayMedia :: "thrown + display_stream"
  micMedia :: "thrown + nat"
  camMedia :: "thrown + nat"
  displayPlay :: "thrown option"
  webcamPlay :: "thrown option"
  canvasCapture :: bool
  isTypeSupported :: "string \<Rightarrow> bool"
  newRecorderDefault :: "thrown option"
  newRecorderMime :: "thrown option"
  recorderStart :: "thrown option"
  defaultMimeType :: string

text \<open>\<open>getSupportedMimeType\<close> (lines 536 to 551): the first supported entry of the list.\<close>

definition types :: "string list" where
  "types = [''video/webm;codecs=vp8,opus'', ''video/webm;codecs=vp9,opus'', ''video/webm'',
            ''video/mp4'']"

definition getSupportedMimeType :: "(string \<Rightarrow> bool) \<Rightarrow> string option" where
  "getSupportedMimeType supported = find supported types"

text \<open>
  The choice of the video track (lines 251 to 321). \<open>Inl\<close> is a throw, with the state at
  that moment; \<open>Inr\<close> gives \<open>finalVideoTrack\<close>.
\<close>

definition chooseVideoTrack ::
    "env \<Rightarrow> display_stream \<Rightarrow> session \<Rightarrow> thrown \<times> session + track \<times> session" where
  "chooseVideoTrack e ds s =
     (case videoTracks ds of
        [] \<Rightarrow> Inl (new_Error ''No video track available from screen capture'', s)
      | originalDisplayTrack # rest \<Rightarrow>
          (case webcamStream s of
             Some cam \<Rightarrow>
               let (width, height) = canvas_size originalDisplayTrack;
                   s = s\<lparr>displayVideoEl := True\<rparr>
               in (case displayPlay e of
                     Some err \<Rightarrow> Inl (err, s)
                   | None \<Rightarrow>
                       let s = s\<lparr>webcamVideoEl := True\<rparr>
                       in (case webcamPlay e of
                             Some err \<Rightarrow> Inl (err, s)
                           | None \<Rightarrow>
                               let s = startCompositingLoop width height True s
                               in if canvasCapture e then Inr (CanvasVideo, s)
                                  else Inl (new_Error
                                    ''Failed to capture video from compositing canvas'', s)))
           | None \<Rightarrow> Inr (RawDisplayVideo, s)))"

text \<open>
  The recorder (lines 339 to 397): the MIME check, the two constructor calls, \<open>start()\<close>.
  The first constructor call (line 348) passes no options, so that recorder has the
  platform's default type; only when it throws is the recorder constructed with the selected
  type (line 352). \<open>created\<close> is what was thrown or the \<open>mimeType\<close> of the new recorder. A new
  recorder is inactive; \<open>start()\<close> makes it recording.
\<close>

definition createRecorder :: "env \<Rightarrow> session \<Rightarrow> thrown option \<times> session" where
  "createRecorder e s =
     (case getSupportedMimeType (isTypeSupported e) of
        None \<Rightarrow> (Some (new_Error ''No supported video MIME type found''), s)
      | Some mimeType \<Rightarrow>
          let created = (case newRecorderDefault e of
                           None \<Rightarrow> Inr (defaultMimeType e)
                         | Some e1 \<Rightarrow>
                             (case newRecorderMime e of
                                None \<Rightarrow> Inr mimeType
                              | Some err \<Rightarrow> Inl err))
          in (case created of
                Inl err \<Rightarrow> (Some err, s)
              | Inr ty \<Rightarrow>
                  let s = s\<lparr>mediaRecorder :=
                              Some \<lparr>rec_state = Inactive, rec_mime = mimeType, rec_mimeType = ty\<rparr>\<rparr>
                  in (case recorderStart e of
                        Some err \<Rightarrow> (Some err, s)
                      | None \<Rightarrow>
                          let s = s\<lparr>mediaRecorder :=
                                      Some \<lparr>rec_state = Recording, rec_mime = mimeType,
                                            rec_mimeType = ty\<rparr>\<rparr>;
                              s = s\<lparr>isRecording := True\<rparr>
                          in (None, startTimer s))))"

text \<open>
  The optional sources (lines 206 to 249): the microphone, the webcam if it is enabled and
  not yet held, and the audio mixer. The result is \<open>finalAudioStream\<close>, given by its audio
  tracks: the destination node of the mixer has exactly one.
\<close>

definition acquireOptional ::
    "env \<Rightarrow> display_stream \<Rightarrow> session \<Rightarrow> track list option \<times> session" where
  "acquireOptional e ds s =
     (let (micStream, s) =
            (case micMedia e of
               Inr m \<Rightarrow> (Some m, s)
             | Inl micError \<Rightarrow>
                 (None, s\<lparr>console := console s
                            @ [ConsoleWarn ''Could not access microphone:'' (Some micError)]\<rparr>));
          s = (if webcamEnabled s \<and> webcamStream s = None then initWebcam (camMedia e) s
               else s);
          hasSystemAudio = (audioTracks ds > 0);
          hasMicAudio = (micStream \<noteq> None)
      in if hasSystemAudio \<or> hasMicAudio then
           (Some [MixedAudio hasSystemAudio hasMicAudio], s\<lparr>audioContext := True\<rparr>)
         else (None, s))"

text \<open>The body of the \<open>try\<close> block of \<open>startRecording\<close> (lines 192 to 397).\<close>

definition startRecording_try :: "env \<Rightarrow> session \<Rightarrow> thrown option \<times> session" where
  "startRecording_try e s =
     (let s = s\<lparr>error := None, chunks := []\<rparr>
      in case displayMedia e of
           Inl err \<Rightarrow> (Some err, s)
         | Inr ds \<Rightarrow>
             let s = s\<lparr>displayStream := Some ds\<rparr>;
                 (finalAudioStream, s) = acquireOptional e ds s
             in (case chooseVideoTrack e ds s of
                   Inl (err, s) \<Rightarrow> (Some err, s)
                 | Inr (finalVideoTrack, s) \<Rightarrow>
                     let s = s\<lparr>mediaStream := Some [finalVideoTrack]\<rparr>;
                         s = (case finalAudioStream of
                                Some audio \<Rightarrow> s\<lparr>mediaStream := Some ([finalVideoTrack] @ audio)\<rparr>
                              | None \<Rightarrow> s)
                     in createRecorder e s))"

text \<open>
  \<open>startRecording\<close> (lines 186 to 404). The first component is what the call throws to its
  caller, if anything. The awaits of the source are taken as one step.
\<close>

definition startRecording :: "env \<Rightarrow> session \<Rightarrow> thrown option \<times> session" where
  "startRecording e s =
     (if \<not> isBrowserSupported s then
        (Some (new_Error ''Browser does not support screen recording''), s)
      else
        case startRecording_try e s of
          (None, s) \<Rightarrow> (None, s)
        | (Some err, s) \<Rightarrow>
            let s = s\<lparr>console := console s @ [ConsoleError ''Error starting recording:'' (Some err)]\<rparr>;
                s = s\<lparr>error := Some (message_or err ''Failed to start recording'')\<rparr>
            in (Some err, cleanup s))"

section \<open>Capture session: recorder events and stop\<close>

text \<open>\<open>new Blob(chunks, { type })\<close>: the chunks are kept as their sizes.\<close>

definition new_Blob :: "nat list \<Rightarrow> string \<Rightarrow> blob" where
  "new_Blob cs ty = \<lparr>blob_size = sum_list cs, blob_type = ty\<rparr>"

text \<open>Settling a promise: only the first settlement of a promise has an effect.\<close>

fun settles :: "nat \<Rightarrow> effect \<Rightarrow> bool" where
  "settles p (Settled q out) = (p = q)"
| "settles p Cleanup = False"

definition settle :: "nat \<Rightarrow> outcome \<Rightarrow> session \<Rightarrow> session" where
  "settle p out s =
     (if list_ex (settles p) (trace s) then s else s\<lparr>trace := trace s @ [Settled p out]\<rparr>)"

text \<open>
  The closures \<open>stopRecording\<close> stores in \<open>stopResolve\<close> and \<open>stopReject\<close> (lines 420 to
  427), for the promise \<open>p\<close>.
\<close>

definition call_stopResolve :: "nat \<Rightarrow> blob \<Rightarrow> session \<Rightarrow> session" where
  "call_stopResolve p b s = settle p (Resolved b) (cleanup s)"

definition call_stopReject :: "nat \<Rightarrow> string \<Rightarrow> session \<Rightarrow> session" where
  "call_stopReject p msg s = settle p (Rejected msg) (cleanup s)"

text \<open>\<open>ondataavailable\<close> (lines 356 to 362); the argument is \<open>event.data.size\<close>, if any.\<close>

definition ondataavailable :: "nat option \<Rightarrow> session \<Rightarrow> session" where
  "ondataavailable d s =
     (case d of
        Some n \<Rightarrow> if n > 0 then s\<lparr>chunks := chunks s @ [n]\<rparr> else s
      | None \<Rightarrow> s)"

text \<open>\<open>onstop\<close> (lines 365 to 377) of the recorder created with \<open>mimeType\<close>.\<close>

definition onstop :: "string \<Rightarrow> session \<Rightarrow> session" where
  "onstop mimeType s =
     (let blob = new_Blob (chunks s) mimeType;
          s = s\<lparr>previewUrl := Some blob\<rparr>;
          s = s\<lparr>isRecording := False\<rparr>;
          s = stopTimer s
      in case stopResolve s of
           Some p \<Rightarrow> (call_stopResolve p blob s)\<lparr>stopResolve := None, stopReject := None\<rparr>
         | None \<Rightarrow> s)"

text \<open>\<open>onerror\<close> (lines 380 to 390).\<close>

definition onerror :: "session \<Rightarrow> session" where
  "onerror s =
     (let s = s\<lparr>console := console s @ [ConsoleError ''MediaRecorder error:'' None]\<rparr>;
          s = s\<lparr>error := Some ''Recording error occurred''\<rparr>;
          s = (case stopReject s of
                 Some p \<Rightarrow> (call_stopReject p ''Recording error occurred'' s)
                             \<lparr>stopResolve := None, stopReject := None\<rparr>
               | None \<Rightarrow> s)
      in cleanup s)"

text \<open>
  The platform's \<open>MediaRecorder.stop()\<close> on a recorder that is not inactive: the recorder
  becomes inactive at once; its \<open>dataavailable\<close> and \<open>stop\<close> events come later.
\<close>

definition MediaRecorder_stop :: "session \<Rightarrow> session" where
  "MediaRecorder_stop s =
     (case mediaRecorder s of
        Some r \<Rightarrow> s\<lparr>mediaRecorder := Some (r\<lparr>rec_state := Inactive\<rparr>)\<rparr>
      | None \<Rightarrow> s)"

text \<open>The \<open>onended\<close> handler of the display track (lines 305 to 310 and 315 to 320).\<close>

definition onended :: "session \<Rightarrow> session" where
  "onended s =
     (if isRecording s
         \<and> (case mediaRecorder s of Some r \<Rightarrow> rec_state r = Recording | None \<Rightarrow> False)
      then MediaRecorder_stop s else s)"

text \<open>
  The events of the current recorder, delivered to the handlers it was given. The \<open>stop\<close>
  event reaches \<open>onstop\<close> with the MIME type that recorder was created for.
\<close>

definition stop_event :: "session \<Rightarrow> session" where
  "stop_event s = (case mediaRecorder s of Some r \<Rightarrow> onstop (rec_mime r) s | None \<Rightarrow> s)"

text \<open>
  \<open>finishStop\<close> (lines 457 to 473). It calls \<open>stopResolve!\<close> and \<open>stopReject!\<close> without a
  test: when the variable is \<open>null\<close> the call throws a \<open>TypeError\<close> and the rest of the
  function does not run.
\<close>

definition finishStop :: "(string \<Rightarrow> bool) \<Rightarrow> session \<Rightarrow> session" where
  "finishStop supported s =
     (let ty = (case getSupportedMimeType supported of Some t \<Rightarrow> t | None \<Rightarrow> ''video/webm'');
          blob = new_Blob (chunks s) ty
      in if blob_size blob > 0 then
           let s = s\<lparr>previewUrl := Some blob\<rparr>;
               s = s\<lparr>isRecording := False\<rparr>;
               s = stopTimer s
           in (case stopResolve s of
                 None \<Rightarrow> s
               | Some p \<Rightarrow>
                   cleanup ((call_stopResolve p blob s)\<lparr>stopResolve := None, stopReject := None\<rparr>))
         else
           (case stopReject s of
              None \<Rightarrow> s
            | Some p \<Rightarrow>
                cleanup ((call_stopReject p ''No data recorded'' s)
                           \<lparr>stopResolve := None, stopReject := None\<rparr>)))"

text \<open>
  \<open>stopRecording\<close> (lines 406 to 482), returning the promise \<open>p\<close>. \<open>stopThrows\<close> is what
  the platform's \<open>stop()\<close> throws, if anything. A call that goes through sets the 3 second
  timeout.
\<close>

definition stopRecording :: "thrown option \<Rightarrow> nat \<Rightarrow> session \<Rightarrow> session" where
  "stopRecording stopThrows p s =
     (case mediaRecorder s of
        None \<Rightarrow> settle p (Rejected ''No active recording'') s
      | Some r \<Rightarrow>
          if rec_state r = Inactive then settle p (Rejected ''Recording already stopped'') s
          else
            let s = s\<lparr>stopResolve := Some p\<rparr>;
                s = s\<lparr>stopReject := Some p\<rparr>
            in (case stopThrows of
                  None \<Rightarrow>
                    let s = MediaRecorder_stop s
                    in s\<lparr>timeouts3000 := Suc (timeouts3000 s)\<rparr>
                | Some err \<Rightarrow>
                    let s = s\<lparr>console := console s
                                @ [ConsoleError ''Error calling stop():'' (Some err)]\<rparr>;
                        s = s\<lparr>stopResolve := None\<rparr>;
                        s = s\<lparr>stopReject := None\<rparr>;
                        s = cleanup s
                    in settle p (Rejected (''Failed to stop recording: '' @ String err)) s))"

text \<open>
  The callback of the 3 second timeout (lines 436 to 455) and of the 500 ms timeout (lines
  444 to 446). \<open>supported\<close> is \<open>MediaRecorder.isTypeSupported\<close> at that time,
  \<open>requestDataThrows\<close> what \<open>requestData()\<close> throws, if anything. A timeout runs only if one
  is pending.
\<close>

definition timeout3000 :: "(string \<Rightarrow> bool) \<Rightarrow> thrown option \<Rightarrow> session \<Rightarrow> session" where
  "timeout3000 supported requestDataThrows s =
     (if timeouts3000 s = 0 then s
      else
        let s = s\<lparr>timeouts3000 := timeouts3000 s - 1\<rparr>
        in case stopResolve s of
             None \<Rightarrow> s
           | Some p \<Rightarrow>
               let s = s\<lparr>console := console s
                          @ [ConsoleWarn ''onstop event did not fire within 3 seconds, forcing stop''
                               None]\<rparr>
               in if (case mediaRecorder s of Some r \<Rightarrow> rec_state r = Recording | None \<Rightarrow> False)
                  then (case requestDataThrows of
                          None \<Rightarrow> s\<lparr>timeouts500 := Suc (timeouts500 s)\<rparr>
                        | Some e \<Rightarrow>
                            finishStop supported
                              (s\<lparr>console := console s
                                   @ [ConsoleError ''requestData failed:'' (Some e)]\<rparr>))
                  else finishStop supported s)"

definition timeout500 :: "(string \<Rightarrow> bool) \<Rightarrow> session \<Rightarrow> session" where
  "timeout500 supported s =
     (if timeouts500 s = 0 then s
      else finishStop supported (s\<lparr>timeouts500 := timeouts500 s - 1\<rparr>))"

section \<open>Runs of the composable\<close>

text \<open>
  Everything that can happen to the composable after its creation: a call of one of the
  functions it returns, or an event of the platform reaching one of its handlers. \<open>run\<close>
  lets a list of them happen in order.
\<close>

datatype event =
    StartRecording env
  | StopRecording "thrown option" nat
  | DataAvailable "nat option"
  | StopEvent
  | ErrorEvent
  | DisplayEnded
  | Timeout3000 "string \<Rightarrow> bool" "thrown option"
  | Timeout500 "string \<Rightarrow> bool"
  | AnimationFrame real nat
  | Tick nat
  | ToggleWebcam "thrown + nat"
  | InitWebcam "thrown + nat"
  | SetWebcamLayout layout
  | Unmounted

fun fire :: "event \<Rightarrow> session \<Rightarrow> session" where
  "fire (StartRecording e) s = snd (startRecording e s)"
| "fire (StopRecording stopThrows p) s = stopRecording stopThrows p s"
| "fire (DataAvailable d) s = ondataavailable d s"
| "fire StopEvent s = stop_event s"
| "fire ErrorEvent s = onerror s"
| "fire DisplayEnded s = onended s"
| "fire (Timeout3000 supported requestDataThrows) s = timeout3000 supported requestDataThrows s"
| "fire (Timeout500 supported) s = timeout500 supported s"
| "fire (AnimationFrame timestamp readyState) s = animationFrame timestamp readyState s"
| "fire (Tick i) s = tick i s"
| "fire (ToggleWebcam cam) s = toggleWebcam cam s"
| "fire (InitWebcam cam) s = initWebcam cam s"
| "fire (SetWebcamLayout l) s = setWebcamLayout l s"
| "fire Unmounted s = onUnmounted s"

definition run :: "event list \<Rightarrow> session \<Rightarrow> session" where
  "run evs s = fold fire evs s"

section \<open>Properties of sessions used in the claims\<close>

text \<open>A drawn frame that painted the background and nothing else.\<close>

fun background_only :: "draw list \<Rightarrow> bool" where
  "background_only [DrawBackground cw ch] = True"
| "background_only ds = False"

text \<open>
  Every artifact the session has produced so far carries one of the four candidate content
  types: the blob of every resolved stop promise, the blob behind the preview reference,
  and the type the current recorder's \<open>onstop\<close> will use.
\<close>

fun typed_effect :: "effect \<Rightarrow> bool" where
  "typed_effect (Settled p (Resolved b)) = (blob_type b \<in> set types)"
| "typed_effect (Settled p (Rejected m)) = True"
| "typed_effect Cleanup = True"

definition artifacts_typed :: "session \<Rightarrow> bool" where
  "artifacts_typed s =
     (list_all typed_effect (trace s)
      \<and> (case previewUrl s of Some b \<Rightarrow> blob_type b \<in> set types | None \<Rightarrow> True)
      \<and> (case mediaRecorder s of Some r \<Rightarrow> rec_mime r \<in> set types | None \<Rightarrow> True))"


section \<open>Concrete platforms\<close>

text \<open>
  A 4K display with system audio, a camera, no microphone permission, and a recorder that
  supports plain WebM only and has it as its default.
\<close>

definition display_4k :: display_stream where
  "display_4k =
     \<lparr>videoTracks = [\<lparr>settings_width = Some 3840, settings_height = Some 2160\<rparr>],
      audioTracks = 1\<rparr>"

definition webm_only :: "string \<Rightarrow> bool" where
  "webm_only ty = (ty = ''video/webm'')"

definition camera_env :: env where
  "camera_env =
     \<lparr>displayMedia = Inr display_4k,
      micMedia = Inl (ErrorObj ''NotAllowedError'' ''Permission denied''),
      camMedia = Inr 7, displayPlay = None, webcamPlay = None, canvasCapture = True,
      isTypeSupported = webm_only, newRecorderDefault = None, newRecorderMime = None,
      recorderStart = None, defaultMimeType = ''video/webm''\<rparr>"

text \<open>The same platform without a camera, and the same platform with no supported type.\<close>

definition no_camera_env :: env where
  "no_camera_env = camera_env\<lparr>camMedia := Inl (ErrorObj ''NotFoundError'' ''No camera'')\<rparr>"

definition no_mime_env :: env where
  "no_mime_env = camera_env\<lparr>isTypeSupported := (\<lambda>ty. False)\<rparr>"

text \<open>
  A platform that supports VP8 in WebM and H.264 in Matroska and records Matroska by
  default.
\<close>

definition matroska_env :: env where
  "matroska_env =
     camera_env\<lparr>isTypeSupported :=
                  (\<lambda>ty. ty \<in> set [''video/webm;codecs=vp8,opus'', ''video/webm'',
                                     ''video/x-matroska;codecs=avc1,opus'']),
                defaultMimeType := ''video/x-matroska;codecs=avc1,opus''\<rparr>"

section \<open>Arithmetic of doubles\<close>

text \<open>
  The binary exponent brackets its argument, down to the smallest normal number.
\<close>

declare up.simps [simp del]

lemma up_bounds: "1 \<le> v \<Longrightarrow> 2 ^ up v \<le> v \<and> v < 2 ^ Suc (up v)"
proof (induction v rule: up.induct)
  case (1 v)
  show ?case
  proof (cases "2 \<le> v")
    case True
    then have "1 \<le> v / 2" by simp
    from "1.IH" [OF True this] have "2 ^ up (v / 2) \<le> v / 2 \<and> v / 2 < 2 ^ Suc (up (v / 2))" .
    moreover have "up v = Suc (up (v / 2))"
      using True by (subst up.simps) simp
    ultimately show ?thesis by simp
  next
    case False
    then have "up v = 0" by (subst up.simps) simp
    with False "1.prems" show ?thesis by simp
  qed
qed

lemma down_le: "down n v \<le> n"
  by (induction n arbitrary: v) simp_all

lemma down_upper: "0 \<le> v \<Longrightarrow> v < 1 \<Longrightarrow> 0 < n \<Longrightarrow> v * 2 ^ down n v < 2"
proof (induction n arbitrary: v)
  case 0
  then show ?case by simp
next
  case (Suc n)
  show ?case
  proof (cases "2 * v < 1 \<and> 0 < n")
    case True
    with Suc.IH [of "2 * v"] Suc.prems have "2 * v * 2 ^ down n (2 * v) < 2" by simp
    then show ?thesis using Suc.prems by (simp add: mult_ac)
  next
    case False
    then show ?thesis
      using Suc.prems by (cases n) auto
  qed
qed

lemma down_lower: "v < 1 \<Longrightarrow> down n v < n \<Longrightarrow> 1 \<le> v * 2 ^ down n v"
proof (induction n arbitrary: v)
  case 0
  then show ?case by simp
next
  case (Suc n)
  show ?case
  proof (cases "2 * v < 1")
    case True
    with Suc.IH [of "2 * v"] Suc.prems have "1 \<le> 2 * v * 2 ^ down n (2 * v)" by simp
    then show ?thesis using Suc.prems by (simp add: mult_ac)
  next
    case False
    then show ?thesis
      using Suc.prems by (cases n) auto
  qed
qed

lemma exponent_ge: "- 1022 \<le> exponent v"
  using down_le [of 1022 "\<bar>v\<bar>"] by (simp add: exponent_def)

lemma exponent_upper: "\<bar>v\<bar> < 2 powi (exponent v + 1)"
proof (cases "1 \<le> \<bar>v\<bar>")
  case True
  from up_bounds [OF True] have "\<bar>v\<bar> < 2 ^ Suc (up \<bar>v\<bar>)" by simp
  moreover have "exponent v + 1 = int (Suc (up \<bar>v\<bar>))"
    using True by (simp add: exponent_def)
  ultimately show ?thesis
    by (simp only: power_int_of_nat)
next
  case False
  let ?k = "down 1022 \<bar>v\<bar>"
  have "\<bar>v\<bar> * 2 ^ ?k < 2"
    using False by (intro down_upper) simp_all
  then have "\<bar>v\<bar> < 2 / 2 ^ ?k"
    by (simp add: field_simps)
  also have "\<dots> = 2 powi (1 - int ?k)"
    by (simp add: power_int_diff)
  finally show ?thesis
    using False by (simp add: exponent_def)
qed

lemma exponent_lower: "- 1022 < exponent v \<Longrightarrow> 2 powi exponent v \<le> \<bar>v\<bar>"
proof (cases "1 \<le> \<bar>v\<bar>")
  case True
  from up_bounds [OF True] have "2 ^ up \<bar>v\<bar> \<le> \<bar>v\<bar>" by simp
  then show ?thesis
    using True by (simp add: exponent_def)
next
  case False
  assume "- 1022 < exponent v"
  then have "down 1022 \<bar>v\<bar> < 1022"
    using False by (simp add: exponent_def)
  with down_lower [of "\<bar>v\<bar>" 1022] False have "1 \<le> \<bar>v\<bar> * 2 ^ down 1022 \<bar>v\<bar>"
    by simp
  then have "1 / 2 ^ down 1022 \<bar>v\<bar> \<le> \<bar>v\<bar>"
    by (simp add: field_simps)
  then show ?thesis
    using False by (simp add: exponent_def power_int_minus field_simps)
qed

text \<open>Rounding to the nearest integer, ties to even.\<close>

lemma round_even_cases:
  "\<bar>of_int (round_even v) - v\<bar> < 1 / 2
   \<or> (\<bar>of_int (round_even v) - v\<bar> = 1 / 2 \<and> even (round_even v))"
proof -
  have "of_int \<lfloor>v\<rfloor> \<le> v" "v < of_int \<lfloor>v\<rfloor> + 1"
    by linarith+
  then show ?thesis
    by (auto simp: round_even_def Let_def)
qed

lemma round_even_half: "\<bar>of_int (round_even v) - v\<bar> \<le> 1 / 2"
  using round_even_cases [of v] by linarith

lemma round_even_unique:
  assumes "\<bar>of_int n - v\<bar> < 1 / 2 \<or> (\<bar>of_int n - v\<bar> = 1 / 2 \<and> even n)"
  shows "round_even v = n"
proof (rule ccontr)
  assume ne: "round_even v \<noteq> n"
  let ?m = "round_even v"
  have d: "1 \<le> \<bar>real_of_int ?m - real_of_int n\<bar>"
  proof -
    from ne have "1 \<le> \<bar>?m - n\<bar>" by linarith
    then have "1 \<le> real_of_int \<bar>?m - n\<bar>" by linarith
    then show ?thesis by simp
  qed
  from round_even_cases [of v] assms d
  have h: "\<bar>of_int ?m - v\<bar> = 1 / 2" "even ?m" "\<bar>of_int n - v\<bar> = 1 / 2" "even n"
    by linarith+
  from h(1,3) d have "\<bar>real_of_int ?m - real_of_int n\<bar> = 1"
    by linarith
  then have "\<bar>?m - n\<bar> = 1"
    by linarith
  with h(2,4) show False
    by presburger
qed

lemma round_even_of_int [simp]: "round_even (of_int n) = n"
  by (rule round_even_unique) simp


lemma round_even_nearest: "\<bar>of_int (round_even v) - v\<bar> \<le> \<bar>of_int m - v\<bar>"
proof (cases "m = round_even v")
  case True
  then show ?thesis by simp
next
  case False
  then have "1 \<le> \<bar>m - round_even v\<bar>" by linarith
  then have "1 \<le> real_of_int \<bar>m - round_even v\<bar>" by linarith
  then have "1 \<le> \<bar>real_of_int m - real_of_int (round_even v)\<bar>" by simp
  with round_even_half [of v] show ?thesis by linarith
qed

text \<open>
  The rounding \<open>fl\<close>: its error, the doubles it leaves fixed, and that its result is a
  double at least as near to the exact value as any other double.
\<close>

lemma pow2_pos [simp]: "0 < (2::real) powi e"
  by simp

lemma pow2_less_cancel: "(2::real) powi a < 2 powi b \<Longrightarrow> a < b"
proof (rule ccontr)
  assume lt: "(2::real) powi a < 2 powi b" and "\<not> a < b"
  then have "b \<le> a" by simp
  then have "(2::real) powi b \<le> 2 powi a"
    by (intro power_int_increasing) simp_all
  with lt show False by simp
qed


lemma pow2_add: "(2::real) powi (a + b) = 2 powi a * 2 powi b"
  by (simp add: power_int_add)

lemma pow2_nat: "(2::real) powi (a + int k) = 2 powi a * 2 ^ k"
  by (simp add: power_int_add)

lemma pow2_mono: "a \<le> b \<Longrightarrow> (2::real) powi a \<le> 2 powi b"
  by (intro power_int_increasing) simp_all

lemma fl_grid: "fl v = of_int (round_even (v / 2 powi (exponent v - 52))) * 2 powi (exponent v - 52)"
  by (simp add: fl_def Let_def)



text \<open>A double is left as it is.\<close>

lemma fl_fixed:
  assumes "- 1074 \<le> e" and "\<bar>n\<bar> < 2 ^ 53"
  shows "fl (of_int n * 2 powi e) = of_int n * 2 powi e"
proof -
  let ?d = "real_of_int n * 2 powi e"
  let ?E = "exponent ?d"
  have le: "?E - 52 \<le> e"
  proof (cases "- 1022 < ?E")
    case True
    have "real_of_int \<bar>n\<bar> < 2 ^ 53"
      using assms(2) by (metis of_int_less_numeral_power_cancel_iff)
    then have "\<bar>?d\<bar> < 2 ^ 53 * 2 powi e"
      by (simp add: abs_mult)
    also have "\<dots> = 2 powi (e + 53)"
      by (simp add: power_int_add)
    finally have "(2::real) powi ?E < 2 powi (e + 53)"
      using exponent_lower [OF True] by simp
    from pow2_less_cancel [OF this] show ?thesis by simp
  next
    case False
    with exponent_ge [of ?d] assms(1) show ?thesis by simp
  qed
  define k where "k = nat (e - (?E - 52))"
  define q where "q = (2::real) powi (?E - 52)"
  have q: "0 < q"
    by (simp add: q_def)
  have "(2::real) powi e = 2 powi ((?E - 52) + int k)"
    using le by (simp add: k_def)
  then have e: "(2::real) powi e = q * 2 ^ k"
    by (simp only: pow2_nat q_def)
  have "?d / q = of_int (n * 2 ^ k)"
    using q by (simp add: e)
  then have "round_even (?d / q) = n * 2 ^ k"
    by (simp only: round_even_of_int)
  then have "fl ?d = of_int (n * 2 ^ k) * q"
    unfolding q_def by (simp only: fl_grid)
  also have "\<dots> = of_int n * (q * 2 ^ k)"
    by simp
  finally show ?thesis
    by (simp only: e)
qed

lemma fl_zero [simp]: "fl 0 = 0"
  using fl_fixed [of 0 0] by simp

lemma fl_of_int: "\<bar>n\<bar> < 2 ^ 53 \<Longrightarrow> fl (of_int n) = of_int n"
  using fl_fixed [of 0 n] by simp

lemma fl_of_nat: "n < 2 ^ 53 \<Longrightarrow> fl (real n) = real n"
  using fl_of_int [of "int n"] by simp

lemma fl_pow2: "- 1074 \<le> e \<Longrightarrow> fl (2 powi e) = 2 powi e"
  using fl_fixed [of e 1] by simp

lemma exponent_minus [simp]: "exponent (- v) = exponent v"
  by (simp add: exponent_def)


lemma fl_idem [simp]: "fl (fl v) = fl v"
proof -
  let ?E = "exponent v"
  let ?q = "(2::real) powi (?E - 52)"
  let ?R = "round_even (v / ?q)"
  have "\<bar>v\<bar> / ?q < 2 powi (?E + 1) / ?q"
    using exponent_upper [of v] by (simp add: divide_strict_right_mono)
  also have "\<dots> = 2 ^ 53"
    by (simp add: power_int_diff power_int_add)
  finally have y: "\<bar>v / ?q\<bar> < 2 ^ 53"
    by simp
  have "\<bar>real_of_int ?R\<bar> < 2 ^ 53 + 1"
    using round_even_half [of "v / ?q"] y by linarith
  then have "real_of_int \<bar>?R\<bar> < real_of_int (2 ^ 53 + 1)"
    by simp
  then have "\<bar>?R\<bar> < 2 ^ 53 + 1"
    by (simp only: of_int_less_iff)
  then have R: "\<bar>?R\<bar> \<le> 2 ^ 53"
    by simp
  have E: "- 1074 \<le> ?E - 52"
    using exponent_ge [of v] by simp
  show ?thesis
  proof (cases "\<bar>?R\<bar> < 2 ^ 53")
    case True
    from fl_fixed [OF E True] show ?thesis
      by (simp only: fl_grid [symmetric])
  next
    case False
    with R have "\<bar>?R\<bar> = 2 ^ 53" by simp
    then consider "?R = 2 ^ 53" | "?R = - (2 ^ 53)"
      by linarith
    then have "\<exists>n. \<bar>n\<bar> < 2 ^ 53 \<and> real_of_int ?R = of_int n * 2"
    proof cases
      case 1
      then show ?thesis
        by (intro exI [of _ "2 ^ 52"]) simp
    next
      case 2
      then show ?thesis
        by (intro exI [of _ "- (2 ^ 52)"]) simp
    qed
    then obtain n where n: "\<bar>n\<bar> < 2 ^ 53" "real_of_int ?R = of_int n * 2"
      by blast
    have "fl v = of_int n * (2 * ?q)"
      by (simp add: fl_grid n(2))
    also have "2 * ?q = 2 powi (?E - 51)"
      by (simp add: power_int_diff)
    finally have eq: "fl v = of_int n * 2 powi (?E - 51)" .
    have "- 1074 \<le> ?E - 51"
      using E by simp
    from fl_fixed [OF this n(1)] show ?thesis
      by (simp only: eq)
  qed
qed

lemma fl_nearest_grid:
  "\<bar>fl v - v\<bar> \<le> \<bar>of_int m * 2 powi (exponent v - 52) - v\<bar>"
proof -
  let ?q = "(2::real) powi (exponent v - 52)"
  have "fl v - v = (of_int (round_even (v / ?q)) - v / ?q) * ?q"
    by (simp add: fl_grid left_diff_distrib)
  then have "\<bar>fl v - v\<bar> = \<bar>of_int (round_even (v / ?q)) - v / ?q\<bar> * ?q"
    by (simp only: abs_mult) simp
  also have "\<dots> \<le> \<bar>of_int m - v / ?q\<bar> * ?q"
    by (intro mult_right_mono round_even_nearest) simp
  also have "\<dots> = \<bar>(of_int m - v / ?q) * ?q\<bar>"
    by (simp only: abs_mult) simp
  also have "(of_int m - v / ?q) * ?q = of_int m * ?q - v"
    by (simp add: left_diff_distrib)
  finally show ?thesis .
qed

text \<open>No double is nearer to \<open>v\<close> than \<open>fl v\<close>; so \<open>fl v\<close> stays on the side of a double that \<open>v\<close> is on.\<close>

lemma fl_nearest:
  assumes d: "fl d = d"
  shows "\<bar>fl v - v\<bar> \<le> \<bar>d - v\<bar>"
proof (cases "exponent v \<le> exponent d")
  case True
  define k where "k = nat (exponent d - exponent v)"
  define q where "q = (2::real) powi (exponent v - 52)"
  have "(2::real) powi (exponent d - 52) = 2 powi ((exponent v - 52) + int k)"
    using True by (simp add: k_def)
  then have e: "(2::real) powi (exponent d - 52) = q * 2 ^ k"
    by (simp only: pow2_nat q_def)
  have "d = of_int (round_even (d / 2 powi (exponent d - 52))) * 2 powi (exponent d - 52)"
    using d by (simp only: fl_grid [symmetric])
  then obtain n where "d = of_int n * 2 powi (exponent d - 52)"
    by blast
  then have "d = of_int (n * 2 ^ k) * q"
    by (simp add: e)
  then show ?thesis
    unfolding q_def using fl_nearest_grid [of v "n * 2 ^ k"] by simp
next
  case False
  then have lt: "exponent d + 1 \<le> exponent v"
    by simp
  then have "- 1022 < exponent v"
    using exponent_ge [of d] by simp
  then have lo: "2 powi exponent v \<le> \<bar>v\<bar>"
    by (rule exponent_lower)
  have "\<bar>d\<bar> < 2 powi (exponent d + 1)"
    by (rule exponent_upper)
  also have "\<dots> \<le> 2 powi exponent v"
    using lt by (rule pow2_mono)
  finally have dlt: "\<bar>d\<bar> < 2 powi exponent v" .
  have g: "(2::real) powi exponent v = 2 ^ 52 * 2 powi (exponent v - 52)"
    by (simp add: power_int_diff)
  show ?thesis
  proof (cases "0 \<le> v")
    case True
    have "\<bar>fl v - v\<bar> \<le> \<bar>2 powi exponent v - v\<bar>"
      using fl_nearest_grid [of v "2 ^ 52"] by (simp add: g)
    also have "\<dots> \<le> \<bar>d - v\<bar>"
      using lo dlt True by linarith
    finally show ?thesis .
  next
    case False
    have "\<bar>fl v - v\<bar> \<le> \<bar>- (2 powi exponent v) - v\<bar>"
      using fl_nearest_grid [of v "- (2 ^ 52)"] by (simp add: g)
    also have "\<dots> \<le> \<bar>d - v\<bar>"
      using lo dlt False by linarith
    finally show ?thesis .
  qed
qed


lemma fl_upper: "fl d = d \<Longrightarrow> v \<le> d \<Longrightarrow> fl v \<le> d"
  using fl_nearest [of d v] by linarith


lemma fl_nonpos: "v \<le> 0 \<Longrightarrow> fl v \<le> 0"
  by (rule fl_upper) simp_all





text \<open>The value of \<open>fl\<close> at a given number, from the bracket of its exponent.\<close>

lemma exponent_eqI:
  assumes lo: "2 powi E \<le> \<bar>v\<bar>" and hi: "\<bar>v\<bar> < 2 powi (E + 1)" and E: "- 1022 \<le> E"
  shows "exponent v = E"
proof (rule antisym)
  show "exponent v \<le> E"
  proof (cases "- 1022 < exponent v")
    case True
    from exponent_lower [OF True] hi have "(2::real) powi exponent v < 2 powi (E + 1)"
      by simp
    from pow2_less_cancel [OF this] show ?thesis by simp
  next
    case False
    with E show ?thesis by simp
  qed
  from lo exponent_upper [of v] have "(2::real) powi E < 2 powi (exponent v + 1)"
    by simp
  from pow2_less_cancel [OF this] show "E \<le> exponent v" by simp
qed

lemma fl_eq_div:
  assumes k: "k \<le> 1074"
    and lo: "2 ^ 52 \<le> \<bar>v\<bar> * 2 ^ k" and hi: "\<bar>v\<bar> * 2 ^ k < 2 ^ 53"
    and n: "\<bar>real_of_int n - v * 2 ^ k\<bar> < 1 / 2
            \<or> (\<bar>real_of_int n - v * 2 ^ k\<bar> = 1 / 2 \<and> even n)"
  shows "fl v = real_of_int n / 2 ^ k"
proof -
  define E where "E = 52 - int k"
  have q: "(2::real) powi (E - 52) = 1 / 2 ^ k"
    by (simp add: E_def power_int_minus field_simps)
  have p0: "(2::real) powi E = 2 ^ 52 * 2 powi (E - 52)"
    using pow2_add [of 52 "E - 52"] by simp
  have p1: "(2::real) powi (E + 1) = 2 ^ 53 * 2 powi (E - 52)"
  proof -
    have "E + 1 = 53 + (E - 52)"
      by arith
    then have "(2::real) powi (E + 1) = 2 powi (53 + (E - 52))"
      by (rule arg_cong)
    also have "\<dots> = 2 powi 53 * 2 powi (E - 52)"
      by (rule pow2_add)
    finally show ?thesis by simp
  qed
  have "2 powi E \<le> \<bar>v\<bar>"
    using lo by (simp add: p0 q field_simps)
  moreover have "\<bar>v\<bar> < 2 powi (E + 1)"
    using hi by (simp add: p1 q field_simps)
  moreover have "- 1022 \<le> E"
    using k by (simp add: E_def)
  ultimately have "exponent v = E"
    by (rule exponent_eqI)
  then have "fl v = real_of_int (round_even (v * 2 ^ k)) / 2 ^ k"
    by (simp add: fl_grid q)
  moreover have "round_even (v * 2 ^ k) = n"
    using n by (rule round_even_unique)
  ultimately show ?thesis
    by simp
qed

lemma fl_tenth: "fl (1 / 10) = 3602879701896397 / 36028797018963968"
  using fl_eq_div [of 56 "1 / 10" 7205759403792794] by simp

lemma fl_nine_tenths: "fl (9 / 10) = 8106479329266893 / 9007199254740992"
  using fl_eq_div [of 53 "9 / 10" 8106479329266893] by simp

text \<open>The interpolation of one axis in doubles.\<close>

lemma LERP_FACTOR_value: "LERP_FACTOR = 5404319552844595 / 36028797018963968"
  unfolding LERP_FACTOR_def using fl_eq_div [of 55 "15 / 100" 5404319552844595] by simp



lemma lerp_double [simp]: "fl (lerp c t) = lerp c t"
  by (simp add: lerp_def)

lemma lerp_same: "fl c = c \<Longrightarrow> lerp c c = c"
  by (simp add: lerp_def)









section \<open>Layout model: the claims\<close>

lemma step_target [simp]: "targetLayout (step s) = targetLayout s"
  by (simp add: step_def)

lemma funpow_step_target [simp]: "targetLayout ((step ^^ n) s) = targetLayout s"
  by (induction n) simp_all

lemma fold_setWebcamLayout_current [simp]:
  "currentLayout (fold setWebcamLayout ls s) = currentLayout s"
  by (induction ls arbitrary: s) (simp_all add: setWebcamLayout_def)









text \<open>
  In doubles the interpolation does not reach its target: three units in the last place
  below the target 0.9 the increment is rounded away, and \<open>current.x\<close> stays where it is.
\<close>

lemma easing_stalls:
  "lerp (fl (9 / 10) - 3 / 2 ^ 53) (fl (9 / 10)) = fl (9 / 10) - 3 / 2 ^ 53
   \<and> fl (fl (9 / 10) - 3 / 2 ^ 53) = fl (9 / 10) - 3 / 2 ^ 53"
proof -
  have d: "fl (3 / 9007199254740992) = 3 / 9007199254740992"
    using fl_eq_div [of 104 "3 / 9007199254740992" 6755399441055744] by simp
  have p: "fl (16212958658533785 / 324518553658426726783156020576256)
      = 2026619832316723 / 40564819207303340847894502572032"
    using fl_eq_div [of 107 "16212958658533785 / 324518553658426726783156020576256"
        8106479329266892] by simp
  have c: "fl (36508337286572996179645927994163 / 40564819207303340847894502572032)
      = 4053239664633445 / 4503599627370496"
    using fl_eq_div [of 53 "36508337286572996179645927994163 / 40564819207303340847894502572032"
        8106479329266890] by simp
  have f: "fl (4053239664633445 / 4503599627370496) = 4053239664633445 / 4503599627370496"
    using fl_eq_div [of 53 "4053239664633445 / 4503599627370496" 8106479329266890] by simp
  show ?thesis
    by (simp add: lerp_def LERP_FACTOR_value fl_nine_tenths d p c f)
qed

text \<open>
  Claim C9. \<open>setWebcamLayout\<close> stores its argument as the new target and changes nothing
  else; in particular the current layout stays as it was, so the call never snaps it.
\<close>

theorem setWebcamLayout_stores_target: "setWebcamLayout l s = s\<lparr>targetLayout := l\<rparr>
   \<and> targetLayout (setWebcamLayout l s) = l
   \<and> currentLayout (setWebcamLayout l s) = currentLayout s"
  by (simp add: setWebcamLayout_def)




section \<open>Canvas size: the claim\<close>








text \<open>
  A missing setting and a setting of 0 are both taken as not reported and replaced by the
  default 1920 or 1080.
\<close>

lemma canvas_size_or_default:
  "canvas_size st =
     canvas_size \<lparr>settings_width = Some (or_default (settings_width st) 1920),
                  settings_height = Some (or_default (settings_height st) 1080)\<rparr>"
  by (simp add: canvas_size_def or_default_def split: option.splits)

lemma canvas_size_default:
  "canvas_size \<lparr>settings_width = None, settings_height = None\<rparr> = (1920, 1080)"
  by (simp add: canvas_size_def or_default_def MAX_WIDTH_def MAX_HEIGHT_def)

lemma canvas_size_zero_width:
  "canvas_size \<lparr>settings_width = Some 0, settings_height = Some 720\<rparr> = (1920, 720)"
  by (simp add: canvas_size_def or_default_def MAX_WIDTH_def MAX_HEIGHT_def)

lemma fl_half: "fl (1 / 2) = 1 / 2"
  using fl_eq_div [of 53 "1 / 2" 4503599627370496] by simp

lemma canvas_size_4k:
  "canvas_size \<lparr>settings_width = Some 3840, settings_height = Some 2160\<rparr> = (1920, 1080)"
proof -
  have "fl (1920 :: real) = 1920" "fl (1080 :: real) = 1080"
    using fl_of_nat [of 1920] fl_of_nat [of 1080] by simp_all
  then show ?thesis
    by (simp add: canvas_size_def or_default_def MAX_WIDTH_def MAX_HEIGHT_def fl_half
        Math_round_def)
qed

text \<open>
  A source of 1275x1360 is scaled by 1080/1360. The exact product for the width is 1012.5;
  the product of the doubles is just below it, and the canvas is 1012 pixels wide.
\<close>

lemma canvas_size_1275x1360:
  "canvas_size \<lparr>settings_width = Some 1275, settings_height = Some 1360\<rparr> = (1012, 1080)"
proof -
  have a: "fl (128 / 85) = 847736400446211 / 562949953421312"
    using fl_eq_div [of 52 "128 / 85" 6781891203569688] by simp
  have b: "fl (27 / 34) = 7152775878764905 / 9007199254740992"
    using fl_eq_div [of 53 "27 / 34" 7152775878764905] by simp
  have w: "fl (9119789245425253875 / 9007199254740992) = 8906044184985599 / 8796093022208"
    using fl_eq_div [of 43 "9119789245425253875 / 9007199254740992" 8906044184985599]
    by simp
  have h: "fl (607985949695016925 / 562949953421312) = 1080"
    using fl_eq_div [of 42 "607985949695016925 / 562949953421312" 4749890231992320]
    by simp
  have r: "Math_round (8906044184985599 / 8796093022208) = 1012" "Math_round 1080 = 1080"
    unfolding Math_round_def by linarith+
  show ?thesis
    by (simp add: canvas_size_def or_default_def MAX_WIDTH_def MAX_HEIGHT_def a b w h r)
qed



section \<open>Cleanup and the stop handshake\<close>

text \<open>
  \<open>cleanup\<close> as one update of the state: every handle it tests is cleared whether it was
  set or not, so running it a second time changes nothing but the trace.
\<close>

lemma stopWebcam_eq: "stopWebcam s = s\<lparr>webcamStream := None\<rparr>"
  by (cases "webcamStream s") (simp_all add: stopWebcam_def)

lemma stopTimer_eq:
  "stopTimer s = s\<lparr>intervals := (case timerInterval s of Some i \<Rightarrow> removeAll i (intervals s)
                                    | None \<Rightarrow> intervals s),
                   timerInterval := None\<rparr>"
  by (cases "timerInterval s") (simp_all add: stopTimer_def)

lemma cancel_step:
  "(case animationFrameId s of
      Some h \<Rightarrow> (cancelAnimationFrame h s)\<lparr>animationFrameId := None\<rparr>
    | None \<Rightarrow> s)
   = s\<lparr>rafPending := (case animationFrameId s of
                         Some h \<Rightarrow> filter (\<lambda>c. fst c \<noteq> h) (rafPending s)
                       | None \<Rightarrow> rafPending s),
        animationFrameId := None\<rparr>"
  by (cases "animationFrameId s") (simp_all add: cancelAnimationFrame_def)

lemma displayVideoEl_step:
  "(if displayVideoEl s then s\<lparr>displayVideoEl := False\<rparr> else s) = s\<lparr>displayVideoEl := False\<rparr>"
  by (cases "displayVideoEl s") simp_all

lemma webcamVideoEl_step:
  "(if webcamVideoEl s then s\<lparr>webcamVideoEl := False\<rparr> else s) = s\<lparr>webcamVideoEl := False\<rparr>"
  by (cases "webcamVideoEl s") simp_all

lemma displayStream_step:
  "(case displayStream s of Some d \<Rightarrow> s\<lparr>displayStream := None\<rparr> | None \<Rightarrow> s)
   = s\<lparr>displayStream := None\<rparr>"
  by (cases "displayStream s") simp_all

lemma mediaStream_step:
  "(case mediaStream s of Some m \<Rightarrow> s\<lparr>mediaStream := None\<rparr> | None \<Rightarrow> s)
   = s\<lparr>mediaStream := None\<rparr>"
  by (cases "mediaStream s") simp_all

lemma audioContext_step:
  "(if audioContext s then s\<lparr>audioContext := False\<rparr> else s) = s\<lparr>audioContext := False\<rparr>"
  by (cases "audioContext s") simp_all


lemmas teardown_steps = cancel_step displayVideoEl_step webcamVideoEl_step displayStream_step
  mediaStream_step audioContext_step

lemma teardown_eq:
  "teardown s =
     s\<lparr>rafPending := (case animationFrameId s of
                        Some h \<Rightarrow> filter (\<lambda>c. fst c \<noteq> h) (rafPending s)
                      | None \<Rightarrow> rafPending s),
       animationFrameId := None, displayVideoEl := False, webcamVideoEl := False,
       displayStream := None, mediaStream := None, audioContext := False,
       intervals := (case timerInterval s of Some i \<Rightarrow> removeAll i (intervals s)
                     | None \<Rightarrow> intervals s),
       timerInterval := None, webcamStream := None\<rparr>"
  unfolding teardown_def
  by (simp only: teardown_steps Let_def stopTimer_eq stopWebcam_eq)
    (simp cong: option.case_cong)

lemma teardown_idem: "teardown (teardown s) = teardown s"
  by (simp add: teardown_eq)

lemma cleanup_eq: "cleanup s = (teardown s)\<lparr>trace := trace s @ [Cleanup]\<rparr>"
  by (simp add: cleanup_def teardown_eq cong: option.case_cong)


lemma stopRecording_active:
  assumes "mediaRecorder s = Some r" and "rec_state r \<noteq> Inactive"
  shows "stopRecording None p s =
           s\<lparr>stopResolve := Some p, stopReject := Some p,
             mediaRecorder := Some (r\<lparr>rec_state := Inactive\<rparr>),
             timeouts3000 := Suc (timeouts3000 s)\<rparr>"
  using assms by (simp add: stopRecording_def MediaRecorder_stop_def Let_def)





section \<open>The compositor without a webcam stream\<close>

text \<open>
  With no webcam stream held, the guard of line 133 fails: whatever a frame callback draws
  is the background alone, and no callback acquires a stream.
\<close>

lemma compositeFrame_no_webcam:
  assumes "webcamStream s = None"
  shows "webcamStream (compositeFrame l timestamp readyState s) = None
       \<and> (\<exists>new. frames (compositeFrame l timestamp readyState s) = frames s @ new
                 \<and> list_all background_only new)"
  using assms
  by (simp add: compositeFrame_def requestAnimationFrame_def step_def Let_def)

lemma fold_compositeFrame_no_webcam:
  assumes "webcamStream s = None"
  shows "webcamStream (fold (\<lambda>c. compositeFrame (snd c) timestamp readyState) cs s) = None
       \<and> (\<exists>new. frames (fold (\<lambda>c. compositeFrame (snd c) timestamp readyState) cs s)
                   = frames s @ new
                 \<and> list_all background_only new)"
  using assms
proof (induction cs arbitrary: s)
  case Nil
  then show ?case by simp
next
  case (Cons c cs)
  let ?s1 = "compositeFrame (snd c) timestamp readyState s"
  from compositeFrame_no_webcam [OF Cons.prems, of "snd c" timestamp readyState]
  obtain n1 where w1: "webcamStream ?s1 = None"
    and f1: "frames ?s1 = frames s @ n1" and b1: "list_all background_only n1"
    by blast
  from Cons.IH [OF w1]
  obtain n2 where w2: "webcamStream (fold (\<lambda>c. compositeFrame (snd c) timestamp readyState) cs ?s1)
      = None"
    and f2: "frames (fold (\<lambda>c. compositeFrame (snd c) timestamp readyState) cs ?s1)
      = frames ?s1 @ n2"
    and b2: "list_all background_only n2"
    by blast
  have "frames (fold (\<lambda>c. compositeFrame (snd c) timestamp readyState) (c # cs) s)
      = frames s @ (n1 @ n2)"
    using f1 f2 by simp
  moreover have "list_all background_only (n1 @ n2)"
    using b1 b2 by simp
  ultimately show ?case using w2 by auto
qed

lemma animationFrame_no_webcam:
  assumes "webcamStream s = None"
  shows "webcamStream (animationFrame timestamp readyState s) = None
       \<and> (\<exists>new. frames (animationFrame timestamp readyState s) = frames s @ new
                 \<and> list_all background_only new)"
  using fold_compositeFrame_no_webcam [of "s\<lparr>rafPending := []\<rparr>" timestamp readyState "rafPending s"]
    assms
  by (simp add: animationFrame_def)

lemma frames_no_webcam:
  assumes "webcamStream s = None"
  shows "webcamStream (fold (\<lambda>f. animationFrame (fst f) (snd f)) fs s) = None
       \<and> (\<exists>new. frames (fold (\<lambda>f. animationFrame (fst f) (snd f)) fs s) = frames s @ new
                 \<and> list_all background_only new)"
  using assms
proof (induction fs arbitrary: s)
  case Nil
  then show ?case by simp
next
  case (Cons f fs)
  let ?s1 = "animationFrame (fst f) (snd f) s"
  from animationFrame_no_webcam [OF Cons.prems, of "fst f" "snd f"]
  obtain n1 where w1: "webcamStream ?s1 = None"
    and f1: "frames ?s1 = frames s @ n1" and b1: "list_all background_only n1"
    by blast
  from Cons.IH [OF w1]
  obtain n2 where w2: "webcamStream (fold (\<lambda>f. animationFrame (fst f) (snd f)) fs ?s1) = None"
    and f2: "frames (fold (\<lambda>f. animationFrame (fst f) (snd f)) fs ?s1) = frames ?s1 @ n2"
    and b2: "list_all background_only n2"
    by blast
  have "frames (fold (\<lambda>f. animationFrame (fst f) (snd f)) (f # fs) s) = frames s @ (n1 @ n2)"
    using f1 f2 by simp
  moreover have "list_all background_only (n1 @ n2)"
    using b1 b2 by simp
  ultimately show ?case using w2 by auto
qed

lemma toggleWebcam_ignores_isRecording:
  "toggleWebcam cam (s\<lparr>isRecording := b\<rparr>) = (toggleWebcam cam s)\<lparr>isRecording := b\<rparr>"
  by (cases "webcamStream s"; cases cam)
    (simp_all add: toggleWebcam_def stopWebcam_eq initWebcam_def)

section \<open>The stages of \<open>startRecording\<close>\<close>

lemma acquireOptional_eq:
  "acquireOptional e ds s =
     (let attempt = (webcamEnabled s \<and> webcamStream s = None);
          hasSystemAudio = (0 < audioTracks ds);
          hasMicAudio = (\<not> isl (micMedia e))
      in (if hasSystemAudio \<or> hasMicAudio then Some [MixedAudio hasSystemAudio hasMicAudio]
          else None,
          s\<lparr>console := console s
               @ (case micMedia e of
                    Inl micError \<Rightarrow> [ConsoleWarn ''Could not access microphone:'' (Some micError)]
                  | Inr m \<Rightarrow> [])
               @ (case camMedia e of
                    Inl camError \<Rightarrow>
                      if attempt then [ConsoleWarn ''Could not access webcam:'' (Some camError)]
                      else []
                  | Inr c \<Rightarrow> []),
             webcamStream := (case camMedia e of
                                Inr c \<Rightarrow> if attempt then Some c else webcamStream s
                              | Inl camError \<Rightarrow> webcamStream s),
             webcamEnabled := (if attempt \<and> isl (camMedia e) then False else webcamEnabled s),
             audioContext := (if hasSystemAudio \<or> hasMicAudio then True else audioContext s)\<rparr>))"
  by (cases "micMedia e"; cases "camMedia e"; cases "webcamEnabled s \<and> webcamStream s = None";
      cases "0 < audioTracks ds")
    (simp_all add: acquireOptional_def initWebcam_def Let_def)

lemma chooseVideoTrack_no_webcam:
  assumes "webcamStream s = None"
  shows "chooseVideoTrack e ds s =
           (if videoTracks ds = []
            then Inl (new_Error ''No video track available from screen capture'', s)
            else Inr (RawDisplayVideo, s))"
  using assms by (cases "videoTracks ds") (simp_all add: chooseVideoTrack_def)

lemma chooseVideoTrack_webcam:
  assumes "webcamStream s = Some c" and "videoTracks ds = t # rest"
  shows "chooseVideoTrack e ds s =
           (case displayPlay e of
              Some err \<Rightarrow> Inl (err, s\<lparr>displayVideoEl := True\<rparr>)
            | None \<Rightarrow>
               (case webcamPlay e of
                  Some err \<Rightarrow> Inl (err, s\<lparr>displayVideoEl := True, webcamVideoEl := True\<rparr>)
                | None \<Rightarrow>
                    if canvasCapture e
                    then Inr (CanvasVideo,
                           startCompositingLoop (fst (canvas_size t)) (snd (canvas_size t)) True
                             (s\<lparr>displayVideoEl := True, webcamVideoEl := True\<rparr>))
                    else Inl (new_Error ''Failed to capture video from compositing canvas'',
                           startCompositingLoop (fst (canvas_size t)) (snd (canvas_size t)) True
                             (s\<lparr>displayVideoEl := True, webcamVideoEl := True\<rparr>))))"
  using assms
  by (cases "displayPlay e"; cases "webcamPlay e"; cases "canvas_size t")
    (simp_all add: chooseVideoTrack_def Let_def)

lemma startCompositingLoop_eq:
  "startCompositingLoop cw ch cam s =
     s\<lparr>loops := loops s @ [\<lparr>loop_cw = cw, loop_ch = ch, loop_camVideo = cam, lastFrameTime = 0\<rparr>],
       rafPending := rafPending s @ [(rafNext s, length (loops s))],
       rafNext := Suc (rafNext s)\<rparr>"
  by (simp add: startCompositingLoop_def requestAnimationFrame_def Let_def)

lemma createRecorder_keeps:
  "webcamStream (snd (createRecorder e s)) = webcamStream s"
  "webcamEnabled (snd (createRecorder e s)) = webcamEnabled s"
  "mediaStream (snd (createRecorder e s)) = mediaStream s"
  "loops (snd (createRecorder e s)) = loops s"
  "rafPending (snd (createRecorder e s)) = rafPending s"
  "rafNext (snd (createRecorder e s)) = rafNext s"
  "frames (snd (createRecorder e s)) = frames s"
  "console (snd (createRecorder e s)) = console s"
  "error (snd (createRecorder e s)) = error s"
  "trace (snd (createRecorder e s)) = trace s"
  "previewUrl (snd (createRecorder e s)) = previewUrl s"
  by (cases "getSupportedMimeType (isTypeSupported e)"; cases "newRecorderDefault e";
      cases "newRecorderMime e"; cases "recorderStart e";
      simp add: createRecorder_def startTimer_def Let_def)+

lemma createRecorder_success:
  assumes "fst (createRecorder e s) = None"
  shows "\<exists>m. getSupportedMimeType (isTypeSupported e) = Some m
           \<and> createRecorder e s =
               (None, startTimer (s\<lparr>mediaRecorder := Some \<lparr>rec_state = Recording, rec_mime = m,
              rec_mimeType = (if newRecorderDefault e = None then defaultMimeType e else m)\<rparr>,
                                     isRecording := True\<rparr>))"
  using assms
  by (cases "getSupportedMimeType (isTypeSupported e)"; cases "newRecorderDefault e";
      cases "newRecorderMime e"; cases "recorderStart e")
    (simp_all add: createRecorder_def Let_def new_Error_def)

lemma createRecorder_cooperating:
  assumes "getSupportedMimeType (isTypeSupported e) = Some m"
    and "newRecorderDefault e = None \<or> newRecorderMime e = None"
    and "recorderStart e = None"
  shows "createRecorder e s =
           (None, startTimer (s\<lparr>mediaRecorder := Some \<lparr>rec_state = Recording, rec_mime = m,
              rec_mimeType = (if newRecorderDefault e = None then defaultMimeType e else m)\<rparr>,
                                 isRecording := True\<rparr>))"
  using assms
  by (cases "newRecorderDefault e"; cases "newRecorderMime e")
    (simp_all add: createRecorder_def Let_def)

lemma startRecording_try_eq:
  assumes "displayMedia e = Inr ds"
  shows "startRecording_try e s =
     (case chooseVideoTrack e ds
             (snd (acquireOptional e ds (s\<lparr>error := None, chunks := [], displayStream := Some ds\<rparr>))) of
        Inl (err, s') \<Rightarrow> (Some err, s')
      | Inr (finalVideoTrack, s') \<Rightarrow>
          createRecorder e
            (s'\<lparr>mediaStream := Some (finalVideoTrack #
               (case fst (acquireOptional e ds
                     (s\<lparr>error := None, chunks := [], displayStream := Some ds\<rparr>)) of
                  Some audio \<Rightarrow> audio | None \<Rightarrow> []))\<rparr>))"
proof -
  obtain fa s1 where a: "acquireOptional e ds (s\<lparr>error := None, chunks := [], displayStream := Some ds\<rparr>)
      = (fa, s1)"
    by (cases "acquireOptional e ds (s\<lparr>error := None, chunks := [], displayStream := Some ds\<rparr>)")
  show ?thesis
  proof (cases "chooseVideoTrack e ds s1")
    case (Inl x)
    then show ?thesis
      using assms a by (cases x) (simp add: startRecording_try_def Let_def)
  next
    case (Inr y)
    then show ?thesis
      using assms a by (cases y; cases fa) (simp_all add: startRecording_try_def Let_def)
  qed
qed

lemma startRecording_success:
  assumes "fst (startRecording e s) = None"
  shows "isBrowserSupported s \<and> startRecording e s = startRecording_try e s"
proof -
  obtain r s' where t: "startRecording_try e s = (r, s')"
    by (cases "startRecording_try e s")
  show ?thesis
    using assms t by (cases "isBrowserSupported s"; cases r) (simp_all add: startRecording_def Let_def)
qed


lemma startTimer_keeps:
  "mediaStream (startTimer s) = mediaStream s" "loops (startTimer s) = loops s"
  "rafPending (startTimer s) = rafPending s" "rafNext (startTimer s) = rafNext s"
  "frames (startTimer s) = frames s" "webcamStream (startTimer s) = webcamStream s"
  "displayVideoEl (startTimer s) = displayVideoEl s"
  "webcamVideoEl (startTimer s) = webcamVideoEl s"
  by (simp_all add: startTimer_def)

section \<open>A recording on a concrete platform\<close>

text \<open>
  The definitions to unfold when a run is evaluated on a concrete platform, and the state
  of the composable once \<open>startRecording\<close> has returned on the platform \<open>camera_env\<close>.
\<close>

lemmas env_defs = camera_env_def no_camera_env_def no_mime_env_def display_4k_def webm_only_def

lemmas start_defs =
  startRecording_def startRecording_try_def chooseVideoTrack_def createRecorder_def
  getSupportedMimeType_def types_def initWebcam_def acquireOptional_def startCompositingLoop_def
  requestAnimationFrame_def canvas_size_4k startTimer_def new_Error_def

lemmas stop_defs =
  stopRecording_def MediaRecorder_stop_def stop_event_def onstop_def onerror_def
  timeout3000_def timeout500_def finishStop_def call_stopResolve_def call_stopReject_def
  settle_def cleanup_def teardown_def stopTimer_def stopWebcam_def cancelAnimationFrame_def
  new_Blob_def ondataavailable_def

lemma camera_start:
  "startRecording camera_env (init None) =
    (None, (init None)
      \<lparr>isRecording := True, webcamStream := Some 7,
       mediaRecorder := Some \<lparr>rec_state = Recording, rec_mime = ''video/webm'',
                               rec_mimeType = ''video/webm''\<rparr>,
       mediaStream := Some [CanvasVideo, MixedAudio True False],
       timerInterval := Some 0, audioContext := True, displayVideoEl := True,
       webcamVideoEl := True, displayStream := Some display_4k, intervals := [0],
       intervalNext := 1, rafPending := [(0, 0)], rafNext := 1,
       loops := [\<lparr>loop_cw = 1920, loop_ch = 1080, loop_camVideo = True, lastFrameTime = 0\<rparr>],
       console := [ConsoleWarn ''Could not access microphone:''
                     (Some (ErrorObj ''NotAllowedError'' ''Permission denied''))]\<rparr>)"
  by (simp add: start_defs env_defs init_def Let_def)


lemma recording_start:
  "snd (startRecording camera_env (init None)) =
     (init None)
      \<lparr>isRecording := True, webcamStream := Some 7,
       mediaRecorder := Some \<lparr>rec_state = Recording, rec_mime = ''video/webm'',
                               rec_mimeType = ''video/webm''\<rparr>,
       mediaStream := Some [CanvasVideo, MixedAudio True False],
       timerInterval := Some 0, audioContext := True, displayVideoEl := True,
       webcamVideoEl := True, displayStream := Some display_4k, intervals := [0],
       intervalNext := 1, rafPending := [(0, 0)], rafNext := 1,
       loops := [\<lparr>loop_cw = 1920, loop_ch = 1080, loop_camVideo = True, lastFrameTime = 0\<rparr>],
       console := [ConsoleWarn ''Could not access microphone:''
                     (Some (ErrorObj ''NotAllowedError'' ''Permission denied''))]\<rparr>"
  by (simp add: camera_start)

section \<open>The stop handshake: the claims\<close>

text \<open>
  Claim C1: the code does not do what the claim says. On the platform \<open>camera_env\<close>, with no
  chunk received, \<open>stopRecording\<close> followed by the recorder's \<open>stop\<close> event resolves the
  promise with a blob of size 0 and stores a preview reference to it: \<open>onstop\<close> (lines 365
  to 377) seals and resolves without looking at the size. The fallback \<open>finishStop\<close> (lines
  457 to 473), reached through the 3 second timeout from the same state, does what the
  claim says: it rejects with \<open>No data recorded\<close> and leaves the preview reference unset.
\<close>

theorem natural_stop_resolves_empty_artifact:
  "trace (stop_event (stopRecording None 1 (snd (startRecording camera_env (init None)))))
     = [Cleanup, Settled 1 (Resolved \<lparr>blob_size = 0, blob_type = ''video/webm''\<rparr>)]
   \<and> previewUrl (stop_event (stopRecording None 1 (snd (startRecording camera_env (init None)))))
     = Some \<lparr>blob_size = 0, blob_type = ''video/webm''\<rparr>
   \<and> trace (timeout3000 webm_only None
        (stopRecording None 1 (snd (startRecording camera_env (init None)))))
     = [Cleanup, Settled 1 (Rejected ''No data recorded''), Cleanup]
   \<and> previewUrl (timeout3000 webm_only None
        (stopRecording None 1 (snd (startRecording camera_env (init None)))))
     = None"
  by (simp only: recording_start)
    (simp add: stop_defs getSupportedMimeType_def types_def init_def Let_def webm_only_def)




section \<open>The webcam toggle: the claim\<close>

text \<open>
  Claim C10. \<open>toggleWebcam\<close> never looks at the recording state: it commutes with any
  change of \<open>isRecording\<close>, and which branch it takes depends on \<open>webcamStream\<close> alone. When
  a stream is held it clears the stream and the enabled flag, and every frame composited
  after that, for any timestamps and any ready state of the webcam element, paints the
  background only. The same holds for a frame composited in any state without a webcam
  stream.
\<close>

theorem toggle_webcam_omits_overlay:
  "toggleWebcam cam (s\<lparr>isRecording := b\<rparr>) = (toggleWebcam cam s)\<lparr>isRecording := b\<rparr>
   \<and> (webcamStream s = None \<longrightarrow> toggleWebcam cam s = initWebcam cam (s\<lparr>webcamEnabled := True\<rparr>))
   \<and> (webcamStream s \<noteq> None \<longrightarrow>
        toggleWebcam cam s = s\<lparr>webcamStream := None, webcamEnabled := False\<rparr>
      \<and> webcamStream (fold (\<lambda>f. animationFrame (fst f) (snd f)) fs (toggleWebcam cam s)) = None
      \<and> (\<exists>new. frames (fold (\<lambda>f. animationFrame (fst f) (snd f)) fs (toggleWebcam cam s))
                   = frames s @ new
                \<and> list_all background_only new))
   \<and> (webcamStream s' = None \<longrightarrow>
        (\<exists>new. frames (animationFrame timestamp readyState s') = frames s' @ new
                \<and> list_all background_only new))"
proof -
  have i: "toggleWebcam cam (s\<lparr>isRecording := b\<rparr>) = (toggleWebcam cam s)\<lparr>isRecording := b\<rparr>"
    by (rule toggleWebcam_ignores_isRecording)
  have n: "toggleWebcam cam s = initWebcam cam (s\<lparr>webcamEnabled := True\<rparr>)"
    if "webcamStream s = None"
    using that by (simp add: toggleWebcam_def)
  have t: "toggleWebcam cam s = s\<lparr>webcamStream := None, webcamEnabled := False\<rparr>"
    if "webcamStream s \<noteq> None"
    using that by (cases "webcamStream s") (simp_all add: toggleWebcam_def stopWebcam_eq)
  have f: "webcamStream (fold (\<lambda>f. animationFrame (fst f) (snd f)) fs (toggleWebcam cam s)) = None
      \<and> (\<exists>new. frames (fold (\<lambda>f. animationFrame (fst f) (snd f)) fs (toggleWebcam cam s))
                   = frames s @ new
                \<and> list_all background_only new)"
    if "webcamStream s \<noteq> None"
  proof -
    have "webcamStream (toggleWebcam cam s) = None"
      by (simp add: t [OF that])
    from frames_no_webcam [OF this, of fs] show ?thesis
      by (simp add: t [OF that])
  qed
  from i n t f animationFrame_no_webcam [of s' timestamp readyState] show ?thesis
    by blast
qed

theorem toggle_webcam_omits_overlay_witness:
  "webcamStream (snd (startRecording camera_env (init None))) \<noteq> None
   \<and> isRecording (snd (startRecording camera_env (init None)))
   \<and> webcamStream (fold (\<lambda>f. animationFrame (fst f) (snd f)) [(40, 4), (80, 4)]
        (toggleWebcam (Inr 9) (snd (startRecording camera_env (init None))))) = None
   \<and> list_all background_only
        (frames (fold (\<lambda>f. animationFrame (fst f) (snd f)) [(40, 4), (80, 4)]
           (toggleWebcam (Inr 9) (snd (startRecording camera_env (init None))))))"
proof -
  let ?s = "snd (startRecording camera_env (init None))"
  have h: "webcamStream ?s \<noteq> None" and r: "isRecording ?s" and f: "frames ?s = []"
    by (simp_all only: recording_start) (simp_all add: init_def)
  let ?s' = "fold (\<lambda>f. animationFrame (fst f) (snd f)) [(40, 4), (80, 4)]
      (toggleWebcam (Inr 9) ?s)"
  note c = toggle_webcam_omits_overlay [where cam = "Inr 9" and s = ?s and fs = "[(40, 4), (80, 4)]",
      THEN conjunct2, THEN conjunct2, THEN conjunct1, rule_format, OF h]
  from c have w: "webcamStream ?s' = None"
    by (rule conjunct1 [OF conjunct2])
  from c obtain new where "frames ?s' = frames ?s @ new" and "list_all background_only new"
    by blast
  then have "list_all background_only (frames ?s')"
    by (simp only: f append_Nil)
  with h r w show ?thesis
    by (intro conjI)
qed

section \<open>Starting without a webcam: the claim\<close>

text \<open>
  Claim C7. When \<open>startRecording\<close> succeeds and no webcam stream is held afterwards, the
  stream handed to the recorder starts with the raw display video track, its only video
  track, followed by the mixer's single audio track if the display has system audio or the
  microphone was acquired, and by nothing otherwise. No compositing loop was started, no
  animation frame was requested, and no hidden video element was created.
\<close>

theorem no_webcam_raw_display_stream:
  assumes "fst (startRecording e s) = None"
    and "webcamStream (snd (startRecording e s)) = None"
  shows "\<exists>ds ms. displayMedia e = Inr ds
          \<and> mediaStream (snd (startRecording e s)) = Some ms
          \<and> ms = RawDisplayVideo #
                  (if 0 < audioTracks ds \<or> \<not> isl (micMedia e)
                   then [MixedAudio (0 < audioTracks ds) (\<not> isl (micMedia e))] else [])
          \<and> filter is_video ms = [RawDisplayVideo]
          \<and> length (filter (\<lambda>t. \<not> is_video t) ms) \<le> 1
          \<and> loops (snd (startRecording e s)) = loops s
          \<and> rafPending (snd (startRecording e s)) = rafPending s
          \<and> displayVideoEl (snd (startRecording e s)) = displayVideoEl s
          \<and> webcamVideoEl (snd (startRecording e s)) = webcamVideoEl s
          \<and> frames (snd (startRecording e s)) = frames s"
proof -
  from startRecording_success [OF assms(1)]
  have eq: "startRecording e s = startRecording_try e s" by simp
  have try_ok: "fst (startRecording_try e s) = None"
    using assms(1) eq by simp
  obtain ds where ds: "displayMedia e = Inr ds"
    using try_ok by (cases "displayMedia e") (simp_all add: startRecording_try_def Let_def)
  let ?s0 = "s\<lparr>error := None, chunks := [], displayStream := Some ds\<rparr>"
  let ?fa = "fst (acquireOptional e ds ?s0)"
  let ?s1 = "snd (acquireOptional e ds ?s0)"
  let ?audio = "if 0 < audioTracks ds \<or> \<not> isl (micMedia e)
                then [MixedAudio (0 < audioTracks ds) (\<not> isl (micMedia e))] else []"
  note tr = startRecording_try_eq [OF ds, of s]
  have fa: "(case ?fa of Some audio \<Rightarrow> audio | None \<Rightarrow> []) = ?audio"
    by (simp add: acquireOptional_eq Let_def)
  have s1: "loops ?s1 = loops s" "rafPending ?s1 = rafPending s" "frames ?s1 = frames s"
    "displayVideoEl ?s1 = displayVideoEl s" "webcamVideoEl ?s1 = webcamVideoEl s"
    by (simp_all add: acquireOptional_eq Let_def)
  show ?thesis
  proof (cases "webcamStream ?s1")
    case None
    note cv = chooseVideoTrack_no_webcam [OF None, of e ds]
    have ne: "videoTracks ds \<noteq> []"
      using try_ok by (auto simp: tr cv)
    have res: "startRecording_try e s
        = createRecorder e (?s1\<lparr>mediaStream := Some (RawDisplayVideo # ?audio)\<rparr>)"
      using ne by (simp add: tr cv fa)
    from try_ok res createRecorder_success [of e "?s1\<lparr>mediaStream := Some (RawDisplayVideo # ?audio)\<rparr>"]
    obtain m where
      "startRecording_try e s
        = (None, startTimer (?s1\<lparr>mediaStream := Some (RawDisplayVideo # ?audio),
             mediaRecorder := Some \<lparr>rec_state = Recording, rec_mime = m,
              rec_mimeType = (if newRecorderDefault e = None then defaultMimeType e else m)\<rparr>, isRecording := True\<rparr>))"
      by auto
    then show ?thesis
      using ds s1 by (simp add: eq startTimer_keeps)
  next
    case (Some c)
    have False
    proof (cases "videoTracks ds")
      case Nil
      then show False
        using try_ok Some by (simp add: tr chooseVideoTrack_def)
    next
      case (Cons t rest)
      note cv = chooseVideoTrack_webcam [OF Some Cons, of e]
      show False
      proof (cases "chooseVideoTrack e ds ?s1")
        case (Inl x)
        then show False
          using try_ok by (cases x) (simp add: tr)
      next
        case (Inr y)
        obtain v s2 where y: "y = (v, s2)" by (cases y)
        have w2: "webcamStream s2 = Some c"
          using Inr y Some unfolding cv
          by (auto simp: startCompositingLoop_eq split: option.splits if_splits)
        have "webcamStream (snd (startRecording_try e s)) = Some c"
          using Inr y w2 by (simp add: tr createRecorder_keeps)
        then show False
          using assms(2) eq by simp
      qed
    qed
    then show ?thesis ..
  qed
qed

theorem no_webcam_raw_display_stream_witness:
  "fst (startRecording no_camera_env (init None)) = None
   \<and> webcamStream (snd (startRecording no_camera_env (init None))) = None
   \<and> mediaStream (snd (startRecording no_camera_env (init None)))
       = Some [RawDisplayVideo, MixedAudio True False]
   \<and> rafPending (snd (startRecording no_camera_env (init None))) = []"
proof -
  have h1: "fst (startRecording no_camera_env (init None)) = None"
    and h2: "webcamStream (snd (startRecording no_camera_env (init None))) = None"
    by (simp_all add: start_defs env_defs init_def Let_def)
  have d: "displayMedia no_camera_env = Inr display_4k"
    "isl (micMedia no_camera_env)" "audioTracks display_4k = 1"
    by (simp_all add: env_defs)
  have r: "rafPending (init None) = []"
    by (simp add: init_def)
  from no_webcam_raw_display_stream [OF h1 h2] h1 h2 d r show ?thesis
    by auto
qed

section \<open>Cancelling the compositing loop: the claim\<close>

text \<open>
  The numbers of the two frames below: the frame interval, the timestamp 40, and the centre
  and radius of the overlay on a canvas of 1920x1080 with the default layout.
\<close>

lemma FRAME_INTERVAL_value: "FRAME_INTERVAL = 4691249611844267 / 140737488355328"
  unfolding FRAME_INTERVAL_def using fl_eq_div [of 47 "1000 / 30" 4691249611844267] by simp

lemma fl_40: "fl 40 = 40"
  using fl_of_nat [of 40] by simp

lemma overlay_default:
  "fl (1920 * fl (1 / 10)) = 192" "fl (1080 * fl (9 / 10)) = 972"
  "fl (1080 * fl (9 / 100)) = fl (486 / 5)"
proof -
  have x: "fl (54043195528445955 / 281474976710656) = 192"
    using fl_eq_div [of 45 "54043195528445955 / 281474976710656" 6755399441055744] by simp
  have y: "fl (1094374709451030555 / 1125899906842624) = 972"
    using fl_eq_div [of 43 "1094374709451030555 / 1125899906842624" 8549802417586176] by simp
  have n: "fl (9 / 100) = 3242591731706757 / 36028797018963968"
    using fl_eq_div [of 56 "9 / 100" 6485183463413514] by simp
  have r: "fl (437749883780412195 / 4503599627370496) = 6839841934068941 / 70368744177664"
    using fl_eq_div [of 46 "437749883780412195 / 4503599627370496" 6839841934068941] by simp
  have v: "fl (486 / 5) = 6839841934068941 / 70368744177664"
    using fl_eq_div [of 46 "486 / 5" 6839841934068941] by simp
  show "fl (1920 * fl (1 / 10)) = 192"
    by (simp add: fl_tenth x)
  show "fl (1080 * fl (9 / 10)) = 972"
    by (simp add: fl_nine_tenths y)
  show "fl (1080 * fl (9 / 100)) = fl (486 / 5)"
    by (simp add: n r v)
qed

lemmas frame_defs = animationFrame_def compositeFrame_def requestAnimationFrame_def
  FRAME_INTERVAL_value fl_40 overlay_default step_def lerp_def LERP_FACTOR_def

lemma loop_survives_cleanup:
  "animationFrameId (cleanup (animationFrame 40 4 (snd (startRecording camera_env (init None)))))
     = None
   \<and> rafPending (cleanup (animationFrame 40 4 (snd (startRecording camera_env (init None)))))
     = [(1, 0)]
   \<and> frames (cleanup (animationFrame 40 4 (snd (startRecording camera_env (init None)))))
     = [ [DrawBackground 1920 1080, DrawOverlay 192 972 (fl (486 / 5))] ]
   \<and> frames (animationFrame 80 4
        (cleanup (animationFrame 40 4 (snd (startRecording camera_env (init None))))))
     = [ [DrawBackground 1920 1080, DrawOverlay 192 972 (fl (486 / 5))], [DrawBackground 1920 1080] ]
   \<and> rafPending (animationFrame 80 4
        (cleanup (animationFrame 40 4 (snd (startRecording camera_env (init None))))))
     = [(3, 0), (4, 0)]"
  by (simp only: recording_start)
    (simp add: cleanup_eq teardown_eq frame_defs init_def default_layout_def Let_def)

lemma no_mime_start:
  "startRecording no_mime_env (init None) =
    (Some (new_Error ''No supported video MIME type found''),
     (init None)
      \<lparr>error := Some ''No supported video MIME type found'',
       rafPending := [(0, 0)], rafNext := 1,
       loops := [\<lparr>loop_cw = 1920, loop_ch = 1080, loop_camVideo = True, lastFrameTime = 0\<rparr>],
       trace := [Cleanup],
       console := [ConsoleWarn ''Could not access microphone:''
                     (Some (ErrorObj ''NotAllowedError'' ''Permission denied'')),
                   ConsoleError ''Error starting recording:''
                     (Some (new_Error ''No supported video MIME type found''))]\<rparr>)"
  by (simp add: start_defs env_defs cleanup_eq teardown_eq init_def Let_def)

lemma loop_survives_failed_start:
  "fst (startRecording no_mime_env (init None))
     = Some (new_Error ''No supported video MIME type found'')
   \<and> trace (snd (startRecording no_mime_env (init None))) = [Cleanup]
   \<and> rafPending (snd (startRecording no_mime_env (init None))) = [(0, 0)]
   \<and> frames (animationFrame 40 4 (snd (startRecording no_mime_env (init None))))
     = [ [DrawBackground 1920 1080] ]"
  by (simp only: no_mime_start)
    (simp add: frame_defs init_def default_layout_def Let_def)

text \<open>
  Claim C4: the code does not do what the claim says. The cancellation itself is idempotent
  and safe when no loop was started (the last two facts; see also \<open>teardown_idem\<close>), but
  \<open>cleanup\<close> does not stop a running loop. \<open>compositeFrame\<close> requests the next frame twice
  in every drawn frame (lines 116 and 180) and keeps the second handle only, and the first
  request of line 183 is never stored, so \<open>cancelAnimationFrame(animationFrameId)\<close> leaves
  callbacks pending.

  First run: a recording with a webcam draws one frame at 40 ms, then \<open>cleanup\<close> runs. One
  callback is still pending, and the animation frame at 80 ms runs it: \<open>ctx.drawImage\<close> is
  called again for the background and two more callbacks are requested. Second run:
  \<open>startRecording\<close> fails at the MIME check after the loop was started; \<open>cleanup\<close> finds
  \<open>animationFrameId\<close> still \<open>null\<close>, cancels nothing, and the next animation frame draws.
\<close>

theorem cleanup_leaves_compositor_running:
  "(animationFrameId (cleanup (animationFrame 40 4 (snd (startRecording camera_env (init None)))))
     = None
   \<and> rafPending (cleanup (animationFrame 40 4 (snd (startRecording camera_env (init None)))))
     = [(1, 0)]
   \<and> frames (cleanup (animationFrame 40 4 (snd (startRecording camera_env (init None)))))
     = [ [DrawBackground 1920 1080, DrawOverlay 192 972 (fl (486 / 5))] ]
   \<and> frames (animationFrame 80 4
        (cleanup (animationFrame 40 4 (snd (startRecording camera_env (init None))))))
     = [ [DrawBackground 1920 1080, DrawOverlay 192 972 (fl (486 / 5))], [DrawBackground 1920 1080] ]
   \<and> rafPending (animationFrame 80 4
        (cleanup (animationFrame 40 4 (snd (startRecording camera_env (init None))))))
     = [(3, 0), (4, 0)])
   \<and> (fst (startRecording no_mime_env (init None))
     = Some (new_Error ''No supported video MIME type found'')
   \<and> trace (snd (startRecording no_mime_env (init None))) = [Cleanup]
   \<and> rafPending (snd (startRecording no_mime_env (init None))) = [(0, 0)]
   \<and> frames (animationFrame 40 4 (snd (startRecording no_mime_env (init None))))
     = [ [DrawBackground 1920 1080] ])
   \<and> rafPending (cleanup (cleanup (init None))) = []
   \<and> frames (animationFrame 40 4 (cleanup (cleanup (init None)))) = []"
proof -
  have "rafPending (cleanup (cleanup (init None))) = []
      \<and> frames (animationFrame 40 4 (cleanup (cleanup (init None)))) = []"
    by (simp add: cleanup_eq teardown_eq animationFrame_def init_def)
  with loop_survives_cleanup loop_survives_failed_start show ?thesis
    by blast
qed

section \<open>Content types of the artifacts\<close>

text \<open>
  \<open>artifacts_typed\<close> holds at creation and is kept by every call and every event, so it
  holds after every run.
\<close>

lemma getSupportedMimeType_in_types:
  "getSupportedMimeType supported = Some m \<Longrightarrow> m \<in> set types"
  by (auto simp: getSupportedMimeType_def find_Some_iff)

lemma getSupportedMimeType_None:
  "getSupportedMimeType supported = None \<longleftrightarrow> (\<forall>ty\<in>set types. \<not> supported ty)"
  by (auto simp: getSupportedMimeType_def find_None_iff)

lemma getSupportedMimeType_priority:
  "getSupportedMimeType supported =
     (if supported ''video/webm;codecs=vp8,opus'' then Some ''video/webm;codecs=vp8,opus''
      else if supported ''video/webm;codecs=vp9,opus'' then Some ''video/webm;codecs=vp9,opus''
      else if supported ''video/webm'' then Some ''video/webm''
      else if supported ''video/mp4'' then Some ''video/mp4''
      else None)"
  by (simp add: getSupportedMimeType_def types_def)

lemma fallback_type_in_types:
  "(case getSupportedMimeType supported of Some t \<Rightarrow> t | None \<Rightarrow> ''video/webm'') \<in> set types"
proof (cases "getSupportedMimeType supported")
  case None
  then show ?thesis by (simp add: types_def)
next
  case (Some m)
  then show ?thesis by (simp add: getSupportedMimeType_in_types)
qed

lemma artifacts_typed_cleanup: "artifacts_typed (cleanup s) = artifacts_typed s"
  by (simp add: artifacts_typed_def cleanup_eq teardown_eq)

lemma artifacts_typed_settle:
  "artifacts_typed s \<Longrightarrow> typed_effect (Settled p out) \<Longrightarrow> artifacts_typed (settle p out s)"
  by (simp add: artifacts_typed_def settle_def)

lemma artifacts_typed_stopTimer: "artifacts_typed (stopTimer s) = artifacts_typed s"
  by (simp add: artifacts_typed_def stopTimer_eq)

lemma artifacts_typed_stopWebcam: "artifacts_typed (stopWebcam s) = artifacts_typed s"
  by (simp add: artifacts_typed_def stopWebcam_eq)

lemma artifacts_typed_stops:
  "artifacts_typed (s\<lparr>stopResolve := a, stopReject := b\<rparr>) = artifacts_typed s"
  "artifacts_typed (s\<lparr>stopResolve := a\<rparr>) = artifacts_typed s"
  "artifacts_typed (s\<lparr>stopReject := b\<rparr>) = artifacts_typed s"
  "artifacts_typed (s\<lparr>console := c\<rparr>) = artifacts_typed s"
  "artifacts_typed (s\<lparr>timeouts3000 := n\<rparr>) = artifacts_typed s"
  "artifacts_typed (s\<lparr>timeouts500 := n\<rparr>) = artifacts_typed s"
  "artifacts_typed (s\<lparr>isRecording := i\<rparr>) = artifacts_typed s"
  "artifacts_typed (s\<lparr>error := x\<rparr>) = artifacts_typed s"
  "artifacts_typed (s\<lparr>chunks := cs\<rparr>) = artifacts_typed s"
  by (simp_all add: artifacts_typed_def)

lemma artifacts_typed_call_stopResolve:
  "artifacts_typed s \<Longrightarrow> blob_type b \<in> set types \<Longrightarrow> artifacts_typed (call_stopResolve p b s)"
  by (simp add: call_stopResolve_def artifacts_typed_settle artifacts_typed_cleanup)

lemma artifacts_typed_call_stopReject:
  "artifacts_typed s \<Longrightarrow> artifacts_typed (call_stopReject p m s)"
  by (simp add: call_stopReject_def artifacts_typed_settle artifacts_typed_cleanup)

lemma artifacts_typed_previewUrl:
  "artifacts_typed s \<Longrightarrow> blob_type b \<in> set types \<Longrightarrow> artifacts_typed (s\<lparr>previewUrl := Some b\<rparr>)"
  by (simp add: artifacts_typed_def)

lemma artifacts_typed_onstop:
  assumes "artifacts_typed s" and "m \<in> set types"
  shows "artifacts_typed (onstop m s)"
proof -
  let ?b = "new_Blob (chunks s) m"
  let ?s1 = "stopTimer (s\<lparr>previewUrl := Some ?b, isRecording := False\<rparr>)"
  have b: "blob_type ?b \<in> set types"
    using assms(2) by (simp add: new_Blob_def)
  have s1: "artifacts_typed ?s1"
    using assms(1) b
    by (simp add: artifacts_typed_stopTimer artifacts_typed_stops artifacts_typed_previewUrl)
  have sr: "stopResolve ?s1 = stopResolve s"
    by (simp add: stopTimer_eq)
  show ?thesis
  proof (cases "stopResolve s")
    case None
    then show ?thesis
      using s1 sr by (simp add: onstop_def Let_def)
  next
    case (Some p)
    then show ?thesis
      using s1 sr b
      by (simp add: onstop_def Let_def artifacts_typed_stops artifacts_typed_call_stopResolve)
  qed
qed

lemma artifacts_typed_stop_event:
  assumes "artifacts_typed s"
  shows "artifacts_typed (stop_event s)"
proof (cases "mediaRecorder s")
  case None
  then show ?thesis using assms by (simp add: stop_event_def)
next
  case (Some r)
  then have "rec_mime r \<in> set types"
    using assms by (simp add: artifacts_typed_def)
  from artifacts_typed_onstop [OF assms this] Some show ?thesis
    by (simp add: stop_event_def)
qed

lemma artifacts_typed_onerror:
  assumes "artifacts_typed s"
  shows "artifacts_typed (onerror s)"
proof -
  let ?s1 = "s\<lparr>console := console s @ [ConsoleError ''MediaRecorder error:'' None],
               error := Some ''Recording error occurred''\<rparr>"
  have s1: "artifacts_typed ?s1"
    using assms by (simp add: artifacts_typed_def)
  show ?thesis
    using s1
    by (cases "stopReject s")
      (simp_all add: onerror_def Let_def artifacts_typed_cleanup artifacts_typed_stops
        artifacts_typed_call_stopReject)
qed

lemma artifacts_typed_MediaRecorder_stop:
  "artifacts_typed s \<Longrightarrow> artifacts_typed (MediaRecorder_stop s)"
  by (cases "mediaRecorder s") (simp_all add: MediaRecorder_stop_def artifacts_typed_def)

lemma artifacts_typed_onended:
  "artifacts_typed s \<Longrightarrow> artifacts_typed (onended s)"
  by (simp add: onended_def artifacts_typed_MediaRecorder_stop)

lemma artifacts_typed_finishStop:
  assumes "artifacts_typed s"
  shows "artifacts_typed (finishStop supported s)"
proof -
  let ?ty = "case getSupportedMimeType supported of Some t \<Rightarrow> t | None \<Rightarrow> ''video/webm''"
  let ?b = "new_Blob (chunks s) ?ty"
  let ?s1 = "stopTimer (s\<lparr>previewUrl := Some ?b, isRecording := False\<rparr>)"
  have b: "blob_type ?b \<in> set types"
    using fallback_type_in_types [of supported] by (simp add: new_Blob_def)
  have s1: "artifacts_typed ?s1"
    using assms b
    by (simp add: artifacts_typed_stopTimer artifacts_typed_stops artifacts_typed_previewUrl)
  have sr: "stopResolve ?s1 = stopResolve s"
    by (simp add: stopTimer_eq)
  show ?thesis
  proof (cases "0 < blob_size ?b")
    case True
    then show ?thesis
      using s1 sr b
      by (cases "stopResolve s")
        (simp_all add: finishStop_def Let_def artifacts_typed_cleanup artifacts_typed_stops
          artifacts_typed_call_stopResolve del: sum_list_eq_0_iff)
  next
    case False
    then show ?thesis
      using assms
      by (cases "stopReject s")
        (simp_all add: finishStop_def Let_def artifacts_typed_cleanup artifacts_typed_stops
          artifacts_typed_call_stopReject del: sum_list_eq_0_iff)
  qed
qed


lemma artifacts_typed_stopRecording:
  assumes "artifacts_typed s"
  shows "artifacts_typed (stopRecording stopThrows p s)"
proof (cases "mediaRecorder s")
  case None
  then show ?thesis
    using assms by (simp add: stopRecording_def artifacts_typed_settle)
next
  case (Some r)
  show ?thesis
  proof (cases "rec_state r = Inactive")
    case True
    then show ?thesis
      using assms Some by (simp add: stopRecording_def artifacts_typed_settle)
  next
    case False
    show ?thesis
    proof (cases stopThrows)
      case None
      have "artifacts_typed (MediaRecorder_stop (s\<lparr>stopResolve := Some p, stopReject := Some p\<rparr>))"
        using assms by (simp add: artifacts_typed_MediaRecorder_stop artifacts_typed_stops)
      then show ?thesis
        using Some False None by (simp add: stopRecording_def Let_def artifacts_typed_stops)
    next
      case (Some err)
      then show ?thesis
        using assms \<open>mediaRecorder s = Some r\<close> False
        by (simp add: stopRecording_def Let_def artifacts_typed_settle artifacts_typed_cleanup
            artifacts_typed_stops)
    qed
  qed
qed

lemma artifacts_typed_timeout500:
  "artifacts_typed s \<Longrightarrow> artifacts_typed (timeout500 supported s)"
  by (simp add: timeout500_def artifacts_typed_finishStop artifacts_typed_stops)

lemma artifacts_typed_timeout3000:
  assumes "artifacts_typed s"
  shows "artifacts_typed (timeout3000 supported requestDataThrows s)"
proof (cases "timeouts3000 s = 0")
  case True
  then show ?thesis using assms by (simp add: timeout3000_def)
next
  case False
  let ?s1 = "s\<lparr>timeouts3000 := timeouts3000 s - 1\<rparr>"
  show ?thesis
  proof (cases "stopResolve s")
    case None
    then show ?thesis
      using assms False by (simp add: timeout3000_def Let_def artifacts_typed_stops)
  next
    case (Some p)
    then show ?thesis
      using assms False
      by (cases requestDataThrows)
        (simp_all add: timeout3000_def Let_def artifacts_typed_stops artifacts_typed_finishStop)
  qed
qed

lemma compositeFrame_keeps:
  "trace (compositeFrame l timestamp readyState s) = trace s"
  "previewUrl (compositeFrame l timestamp readyState s) = previewUrl s"
  "mediaRecorder (compositeFrame l timestamp readyState s) = mediaRecorder s"
  by (simp_all add: compositeFrame_def requestAnimationFrame_def step_def Let_def)

lemma fold_compositeFrame_keeps:
  "trace (fold (\<lambda>c. compositeFrame (snd c) timestamp readyState) cs s) = trace s
   \<and> previewUrl (fold (\<lambda>c. compositeFrame (snd c) timestamp readyState) cs s) = previewUrl s
   \<and> mediaRecorder (fold (\<lambda>c. compositeFrame (snd c) timestamp readyState) cs s)
       = mediaRecorder s"
  by (induction cs arbitrary: s) (simp_all add: compositeFrame_keeps)

lemma artifacts_typed_animationFrame:
  "artifacts_typed (animationFrame timestamp readyState s) = artifacts_typed s"
  using fold_compositeFrame_keeps [of timestamp readyState "rafPending s" "s\<lparr>rafPending := []\<rparr>"]
  by (simp add: animationFrame_def artifacts_typed_def)

lemma artifacts_typed_small:
  "artifacts_typed (tick i s) = artifacts_typed s"
  "artifacts_typed (initWebcam cam s) = artifacts_typed s"
  "artifacts_typed (setWebcamLayout l s) = artifacts_typed s"
  "artifacts_typed (ondataavailable d s) = artifacts_typed s"
  by (cases cam; cases d;
      simp add: tick_def initWebcam_def setWebcamLayout_def ondataavailable_def
        artifacts_typed_def)+

lemma artifacts_typed_toggleWebcam:
  "artifacts_typed (toggleWebcam cam s) = artifacts_typed s"
  by (cases "webcamStream s"; cases cam)
    (simp_all add: toggleWebcam_def stopWebcam_eq initWebcam_def artifacts_typed_def)

lemma artifacts_typed_onUnmounted:
  "artifacts_typed (onUnmounted s) = artifacts_typed s"
  by (simp add: onUnmounted_def artifacts_typed_stopWebcam artifacts_typed_cleanup)


lemma chooseVideoTrack_keeps:
  assumes "chooseVideoTrack e ds s = Inl (x, s') \<or> chooseVideoTrack e ds s = Inr (v, s')"
  shows "trace s' = trace s \<and> previewUrl s' = previewUrl s \<and> mediaRecorder s' = mediaRecorder s
       \<and> console s' = console s \<and> error s' = error s \<and> webcamStream s' = webcamStream s
       \<and> webcamEnabled s' = webcamEnabled s \<and> isRecording s' = isRecording s"
proof (cases "webcamStream s")
  case None
  then show ?thesis
    using assms by (auto simp: chooseVideoTrack_no_webcam split: if_splits)
next
  case (Some c)
  show ?thesis
  proof (cases "videoTracks ds")
    case Nil
    then show ?thesis using assms by (auto simp: chooseVideoTrack_def)
  next
    case (Cons t rest)
    show ?thesis
      using assms unfolding chooseVideoTrack_webcam [OF Some Cons]
      by (auto simp: startCompositingLoop_eq split: option.splits if_splits)
  qed
qed

lemma createRecorder_mediaRecorder:
  "mediaRecorder (snd (createRecorder e s)) = mediaRecorder s
   \<or> (\<exists>st m ty. getSupportedMimeType (isTypeSupported e) = Some m
        \<and> mediaRecorder (snd (createRecorder e s)) = Some \<lparr>rec_state = st, rec_mime = m, rec_mimeType = ty\<rparr>)"
  by (cases "getSupportedMimeType (isTypeSupported e)"; cases "newRecorderDefault e";
      cases "newRecorderMime e"; cases "recorderStart e")
    (simp_all add: createRecorder_def startTimer_def Let_def)

lemma acquireOptional_keeps:
  "trace (snd (acquireOptional e ds s)) = trace s"
  "previewUrl (snd (acquireOptional e ds s)) = previewUrl s"
  "mediaRecorder (snd (acquireOptional e ds s)) = mediaRecorder s"
  by (simp_all add: acquireOptional_eq Let_def)

lemma startRecording_try_keeps:
  "trace (snd (startRecording_try e s)) = trace s
   \<and> previewUrl (snd (startRecording_try e s)) = previewUrl s
   \<and> (mediaRecorder (snd (startRecording_try e s)) = mediaRecorder s
      \<or> (\<exists>st m ty. getSupportedMimeType (isTypeSupported e) = Some m
           \<and> mediaRecorder (snd (startRecording_try e s))
               = Some \<lparr>rec_state = st, rec_mime = m, rec_mimeType = ty\<rparr>))"
proof (cases "displayMedia e")
  case (Inl err)
  then show ?thesis by (simp add: startRecording_try_def Let_def)
next
  case (Inr ds)
  note tr = startRecording_try_eq [OF Inr, of s]
  let ?s0 = "s\<lparr>error := None, chunks := [], displayStream := Some ds\<rparr>"
  let ?s1 = "snd (acquireOptional e ds ?s0)"
  have s1: "trace ?s1 = trace s" "previewUrl ?s1 = previewUrl s"
    "mediaRecorder ?s1 = mediaRecorder s"
    by (simp_all add: acquireOptional_keeps)
  show ?thesis
  proof (cases "chooseVideoTrack e ds ?s1")
    case (Inl x)
    obtain err s2 where x: "x = (err, s2)" by (cases x)
    from chooseVideoTrack_keeps [of e ds ?s1 err s2] Inl x
    have "trace s2 = trace ?s1 \<and> previewUrl s2 = previewUrl ?s1
        \<and> mediaRecorder s2 = mediaRecorder ?s1"
      by simp
    then show ?thesis
      using Inl x s1 by (simp add: tr)
  next
    case (Inr y)
    obtain v s2 where y: "y = (v, s2)" by (cases y)
    from chooseVideoTrack_keeps [of e ds ?s1 _ s2 v] Inr y
    have k: "trace s2 = trace ?s1 \<and> previewUrl s2 = previewUrl ?s1
        \<and> mediaRecorder s2 = mediaRecorder ?s1"
      by simp
    let ?s3 = "s2\<lparr>mediaStream := Some (v #
        (case fst (acquireOptional e ds ?s0) of Some audio \<Rightarrow> audio | None \<Rightarrow> []))\<rparr>"
    have r: "startRecording_try e s = createRecorder e ?s3"
      using Inr y by (simp add: tr)
    from createRecorder_mediaRecorder [of e ?s3] k s1 show ?thesis
      by (simp add: r createRecorder_keeps)
  qed
qed

lemma artifacts_typed_startRecording:
  assumes "artifacts_typed s"
  shows "artifacts_typed (snd (startRecording e s))"
proof -
  obtain r s' where t: "startRecording_try e s = (r, s')"
    by (cases "startRecording_try e s")
  from startRecording_try_keeps [of e s] t
  have k: "trace s' = trace s" "previewUrl s' = previewUrl s"
    "mediaRecorder s' = mediaRecorder s
      \<or> (\<exists>st m ty. getSupportedMimeType (isTypeSupported e) = Some m
           \<and> mediaRecorder s' = Some \<lparr>rec_state = st, rec_mime = m, rec_mimeType = ty\<rparr>)"
    by simp_all
  have s': "artifacts_typed s'"
    using assms k getSupportedMimeType_in_types [of "isTypeSupported e"]
    by (auto simp: artifacts_typed_def)
  show ?thesis
    using assms s' t
    by (cases "isBrowserSupported s"; cases r)
      (simp_all add: startRecording_def Let_def artifacts_typed_cleanup artifacts_typed_stops)
qed

lemma artifacts_typed_fire:
  "artifacts_typed s \<Longrightarrow> artifacts_typed (fire ev s)"
  by (cases ev)
    (simp_all add: artifacts_typed_startRecording artifacts_typed_stopRecording
      artifacts_typed_small artifacts_typed_stop_event artifacts_typed_onerror
      artifacts_typed_onended artifacts_typed_timeout3000 artifacts_typed_timeout500
      artifacts_typed_animationFrame artifacts_typed_toggleWebcam artifacts_typed_onUnmounted)

lemma artifacts_typed_run:
  "artifacts_typed s \<Longrightarrow> artifacts_typed (run evs s)"
  unfolding run_def by (induction evs arbitrary: s) (simp_all add: artifacts_typed_fire)

lemma artifacts_typed_init: "artifacts_typed (init browserCheck)"
  by (simp add: artifacts_typed_def init_def)

lemma chooseVideoTrack_thrown:
  assumes "chooseVideoTrack e ds s = Inl (err, s')"
  shows "err = new_Error ''No video track available from screen capture''
       \<or> displayPlay e = Some err \<or> webcamPlay e = Some err
       \<or> err = new_Error ''Failed to capture video from compositing canvas''"
proof (cases "webcamStream s")
  case None
  then show ?thesis
    using assms by (simp add: chooseVideoTrack_no_webcam split: if_splits)
next
  case (Some c)
  show ?thesis
  proof (cases "videoTracks ds")
    case Nil
    then show ?thesis using assms by (simp add: chooseVideoTrack_def)
  next
    case (Cons t rest)
    show ?thesis
      using assms unfolding chooseVideoTrack_webcam [OF Some Cons]
      by (auto split: option.splits if_splits)
  qed
qed

lemma createRecorder_thrown:
  assumes "fst (createRecorder e s) = Some err"
  shows "err = new_Error ''No supported video MIME type found''
       \<or> newRecorderMime e = Some err \<or> recorderStart e = Some err"
  using assms
  by (cases "getSupportedMimeType (isTypeSupported e)"; cases "newRecorderDefault e";
      cases "newRecorderMime e"; cases "recorderStart e")
    (simp_all add: createRecorder_def Let_def)

lemma startRecording_try_thrown:
  assumes "fst (startRecording_try e s) = Some err"
  shows "displayMedia e = Inl err
       \<or> err = new_Error ''No video track available from screen capture''
       \<or> displayPlay e = Some err \<or> webcamPlay e = Some err
       \<or> err = new_Error ''Failed to capture video from compositing canvas''
       \<or> err = new_Error ''No supported video MIME type found''
       \<or> newRecorderMime e = Some err \<or> recorderStart e = Some err"
proof (cases "displayMedia e")
  case (Inl x)
  then show ?thesis
    using assms by (simp add: startRecording_try_def Let_def)
next
  case (Inr ds)
  note tr = startRecording_try_eq [OF Inr, of s]
  let ?s1 = "snd (acquireOptional e ds (s\<lparr>error := None, chunks := [], displayStream := Some ds\<rparr>))"
  show ?thesis
  proof (cases "chooseVideoTrack e ds ?s1")
    case (Inl x)
    obtain err' s' where x: "x = (err', s')" by (cases x)
    have "err' = err" using assms Inl x by (simp add: tr)
    with chooseVideoTrack_thrown [of e ds ?s1 err' s'] Inl x show ?thesis by auto
  next
    case (Inr y)
    obtain v s' where y: "y = (v, s')" by (cases y)
    from assms Inr y createRecorder_thrown [of e _ err] show ?thesis
      by (auto simp: tr)
  qed
qed

lemma startRecording_thrown:
  assumes "fst (startRecording e s) = Some err"
  shows "(\<not> isBrowserSupported s \<and> err = new_Error ''Browser does not support screen recording'')
       \<or> (isBrowserSupported s \<and> fst (startRecording_try e s) = Some err
          \<and> error (snd (startRecording e s)) = Some (message_or err ''Failed to start recording''))"
proof -
  obtain r s' where t: "startRecording_try e s = (r, s')"
    by (cases "startRecording_try e s")
  show ?thesis
    using assms t
    by (cases "isBrowserSupported s"; cases r)
      (simp_all add: startRecording_def Let_def cleanup_eq teardown_eq)
qed

lemma startRecording_try_needs_type:
  assumes "fst (startRecording_try e s) = None"
  shows "\<exists>m. getSupportedMimeType (isTypeSupported e) = Some m"
proof (cases "displayMedia e")
  case (Inl err)
  then show ?thesis using assms by (simp add: startRecording_try_def Let_def)
next
  case (Inr ds)
  note tr = startRecording_try_eq [OF Inr, of s]
  let ?s1 = "snd (acquireOptional e ds (s\<lparr>error := None, chunks := [], displayStream := Some ds\<rparr>))"
  show ?thesis
  proof (cases "chooseVideoTrack e ds ?s1")
    case (Inl x)
    then show ?thesis using assms by (cases x) (simp add: tr)
  next
    case (Inr y)
    obtain v s2 where y: "y = (v, s2)" by (cases y)
    from assms Inr y createRecorder_success [of e] show ?thesis
      by (auto simp: tr)
  qed
qed

lemma fold_ondataavailable_keeps:
  "mediaRecorder (fold ondataavailable ds s) = mediaRecorder s"
  "trace (fold ondataavailable ds s) = trace s"
  by (induction ds arbitrary: s) (simp_all add: ondataavailable_def split: option.splits)

lemma natural_stop:
  assumes "mediaRecorder s = Some r" and "rec_state r \<noteq> Inactive"
    and "\<not> list_ex (settles p) (trace s)"
  shows "trace (stop_event (stopRecording None p s))
           = trace s @ [Cleanup, Settled p (Resolved (new_Blob (chunks s) (rec_mime r)))]"
    and "previewUrl (stop_event (stopRecording None p s))
           = Some (new_Blob (chunks s) (rec_mime r))"
  using assms(3)
  by (simp_all add: stopRecording_active [OF assms(1,2)] stop_event_def onstop_def Let_def
      stopTimer_eq call_stopResolve_def cleanup_eq teardown_eq settle_def)

lemma startRecording_recorder:
  assumes "fst (startRecording e s) = None"
  shows "\<exists>m. getSupportedMimeType (isTypeSupported e) = Some m
           \<and> mediaRecorder (snd (startRecording e s))
               = Some \<lparr>rec_state = Recording, rec_mime = m,
                       rec_mimeType = (if newRecorderDefault e = None then defaultMimeType e
                                       else m)\<rparr>"
proof -
  from startRecording_success [OF assms] have eq: "startRecording e s = startRecording_try e s"
    by simp
  with assms have ok: "fst (startRecording_try e s) = None"
    by simp
  show ?thesis
  proof (cases "displayMedia e")
    case (Inl err)
    then show ?thesis using ok by (simp add: startRecording_try_def Let_def)
  next
    case (Inr ds)
    note tr = startRecording_try_eq [OF Inr, of s]
    let ?s1 = "snd (acquireOptional e ds (s\<lparr>error := None, chunks := [], displayStream := Some ds\<rparr>))"
    show ?thesis
    proof (cases "chooseVideoTrack e ds ?s1")
      case (Inl x)
      then show ?thesis using ok by (cases x) (simp add: tr)
    next
      case (Inr y)
      obtain v s2 where y: "y = (v, s2)" by (cases y)
      let ?s3 = "s2\<lparr>mediaStream := Some (v #
          (case fst (acquireOptional e ds (s\<lparr>error := None, chunks := [], displayStream := Some ds\<rparr>)) of
             Some audio \<Rightarrow> audio | None \<Rightarrow> []))\<rparr>"
      have r: "startRecording_try e s = createRecorder e ?s3"
        using Inr y by (simp add: tr)
      with ok have "fst (createRecorder e ?s3) = None"
        by simp
      from createRecorder_success [OF this] show ?thesis
        by (auto simp: eq r startTimer_def)
    qed
  qed
qed

text \<open>
  Claim C6, as stated, fails for the recording itself. On a platform whose recorder records
  H.264 in Matroska by default and supports VP8 in WebM, \<open>startRecording\<close> succeeds and
  selects \<open>video/webm;codecs=vp8,opus\<close>, but the recorder was constructed without a type
  (line 348) and records with the platform's default, which is not the selected entry and
  not in the list at all. The selected entry is only the label of the blob.
\<close>

theorem recorder_uses_platform_default:
  "fst (startRecording matroska_env (init None)) = None
   \<and> getSupportedMimeType (isTypeSupported matroska_env) = Some ''video/webm;codecs=vp8,opus''
   \<and> mediaRecorder (snd (startRecording matroska_env (init None)))
       = Some \<lparr>rec_state = Recording, rec_mime = ''video/webm;codecs=vp8,opus'',
               rec_mimeType = ''video/x-matroska;codecs=avc1,opus''\<rparr>
   \<and> ''video/x-matroska;codecs=avc1,opus'' \<notin> set types
   \<and> trace (run [StartRecording matroska_env, DataAvailable (Some 1000), StopRecording None 1,
                 StopEvent] (init None))
       = [Cleanup,
          Settled 1 (Resolved \<lparr>blob_size = 1000, blob_type = ''video/webm;codecs=vp8,opus''\<rparr>)]"
proof -
  have st: "startRecording matroska_env (init None) =
    (None, (init None)
      \<lparr>isRecording := True, webcamStream := Some 7,
       mediaRecorder := Some \<lparr>rec_state = Recording, rec_mime = ''video/webm;codecs=vp8,opus'',
                               rec_mimeType = ''video/x-matroska;codecs=avc1,opus''\<rparr>,
       mediaStream := Some [CanvasVideo, MixedAudio True False],
       timerInterval := Some 0, audioContext := True, displayVideoEl := True,
       webcamVideoEl := True, displayStream := Some display_4k, intervals := [0],
       intervalNext := 1, rafPending := [(0, 0)], rafNext := 1,
       loops := [\<lparr>loop_cw = 1920, loop_ch = 1080, loop_camVideo = True, lastFrameTime = 0\<rparr>],
       console := [ConsoleWarn ''Could not access microphone:''
                     (Some (ErrorObj ''NotAllowedError'' ''Permission denied''))]\<rparr>)"
    by (simp add: start_defs env_defs matroska_env_def init_def Let_def)
  have g: "getSupportedMimeType (isTypeSupported matroska_env)
      = Some ''video/webm;codecs=vp8,opus''"
    by (simp add: getSupportedMimeType_def types_def matroska_env_def env_defs)
  have t: "trace (run [StartRecording matroska_env, DataAvailable (Some 1000),
      StopRecording None 1, StopEvent] (init None))
      = [Cleanup,
         Settled 1 (Resolved \<lparr>blob_size = 1000, blob_type = ''video/webm;codecs=vp8,opus''\<rparr>)]"
    by (simp add: run_def st)
      (simp add: stop_defs init_def Let_def)
  from st g t show ?thesis
    by (simp add: types_def)
qed

text \<open>
  Claim C6, amended. \<open>getSupportedMimeType\<close> returns the first supported entry of the list,
  in the order VP8, VP9, plain WebM, MP4, and nothing if none is supported. If none is
  supported, the recorder stage throws \<open>No supported video MIME type found\<close>,
  \<open>startRecording\<close> fails and creates no recorder. If an entry \<open>m\<close> is selected and the
  platform constructs and starts a recorder, the recorder stage succeeds with a recorder
  whose \<open>onstop\<close> labels the blob with \<open>m\<close>; the recorder itself has the platform's default
  type, and the type \<open>m\<close> only if the construction without a type threw. After every
  successful \<open>startRecording\<close> the recorder is that one, and a \<open>stopRecording\<close> settled by
  the \<open>stop\<close> event, after any data events, resolves with a blob of type \<open>m\<close> and stores it
  as the preview. After any run from the initial state, every blob a stop promise was
  resolved with and the blob behind the preview reference carry one of the four content
  types.
\<close>

theorem mime_type_selection:
  "getSupportedMimeType supported =
     (if supported ''video/webm;codecs=vp8,opus'' then Some ''video/webm;codecs=vp8,opus''
      else if supported ''video/webm;codecs=vp9,opus'' then Some ''video/webm;codecs=vp9,opus''
      else if supported ''video/webm'' then Some ''video/webm''
      else if supported ''video/mp4'' then Some ''video/mp4''
      else None)
   \<and> ((\<forall>ty\<in>set types. \<not> isTypeSupported e ty) \<longrightarrow>
        fst (startRecording e s) \<noteq> None
      \<and> mediaRecorder (snd (startRecording e s)) = mediaRecorder s
      \<and> createRecorder e s = (Some (new_Error ''No supported video MIME type found''), s))
   \<and> (\<forall>m. getSupportedMimeType (isTypeSupported e) = Some m
          \<and> (newRecorderDefault e = None \<or> newRecorderMime e = None)
          \<and> recorderStart e = None \<longrightarrow>
        createRecorder e s =
          (None, startTimer (s\<lparr>mediaRecorder :=
             Some \<lparr>rec_state = Recording, rec_mime = m,
              rec_mimeType = (if newRecorderDefault e = None then defaultMimeType e else m)\<rparr>,
             isRecording := True\<rparr>)))
   \<and> (fst (startRecording e s) = None \<longrightarrow>
        (\<exists>m. getSupportedMimeType (isTypeSupported e) = Some m
           \<and> mediaRecorder (snd (startRecording e s))
               = Some \<lparr>rec_state = Recording, rec_mime = m,
                       rec_mimeType = (if newRecorderDefault e = None then defaultMimeType e
                                       else m)\<rparr>
           \<and> (\<forall>ds p. \<not> list_ex (settles p) (trace (snd (startRecording e s))) \<longrightarrow>
                 trace (stop_event (stopRecording None p
                     (fold ondataavailable ds (snd (startRecording e s)))))
                   = trace (snd (startRecording e s))
                     @ [Cleanup, Settled p (Resolved (new_Blob
                          (chunks (fold ondataavailable ds (snd (startRecording e s)))) m))]
               \<and> previewUrl (stop_event (stopRecording None p
                     (fold ondataavailable ds (snd (startRecording e s)))))
                   = Some (new_Blob
                       (chunks (fold ondataavailable ds (snd (startRecording e s)))) m))))
   \<and> artifacts_typed (run evs (init browserCheck))
   \<and> (\<forall>p b. Settled p (Resolved b) \<in> set (trace (run evs (init browserCheck)))
          \<longrightarrow> blob_type b \<in> set types)
   \<and> (\<forall>b. previewUrl (run evs (init browserCheck)) = Some b \<longrightarrow> blob_type b \<in> set types)"
proof -
  have none: "fst (startRecording e s) \<noteq> None
      \<and> mediaRecorder (snd (startRecording e s)) = mediaRecorder s
      \<and> createRecorder e s = (Some (new_Error ''No supported video MIME type found''), s)"
    if "\<forall>ty\<in>set types. \<not> isTypeSupported e ty"
  proof -
    have g: "getSupportedMimeType (isTypeSupported e) = None"
      using that by (simp add: getSupportedMimeType_None)
    have f: "fst (startRecording e s) \<noteq> None"
    proof
      assume a: "fst (startRecording e s) = None"
      from startRecording_success [OF a] a have "fst (startRecording_try e s) = None"
        by simp
      from startRecording_try_needs_type [OF this] g show False by simp
    qed
    obtain r s' where t: "startRecording_try e s = (r, s')"
      by (cases "startRecording_try e s")
    from startRecording_try_keeps [of e s] g t have "mediaRecorder s' = mediaRecorder s"
      by simp
    then have m: "mediaRecorder (snd (startRecording e s)) = mediaRecorder s"
      using t
      by (cases "isBrowserSupported s"; cases r)
        (simp_all add: startRecording_def Let_def cleanup_eq teardown_eq)
    have c: "createRecorder e s = (Some (new_Error ''No supported video MIME type found''), s)"
      using g by (simp add: createRecorder_def)
    from f m c show ?thesis by simp
  qed
  have stage: "createRecorder e s =
      (None, startTimer (s\<lparr>mediaRecorder :=
         Some \<lparr>rec_state = Recording, rec_mime = m,
          rec_mimeType = (if newRecorderDefault e = None then defaultMimeType e else m)\<rparr>,
         isRecording := True\<rparr>))"
    if "getSupportedMimeType (isTypeSupported e) = Some m
        \<and> (newRecorderDefault e = None \<or> newRecorderMime e = None) \<and> recorderStart e = None"
    for m
    using that by (intro createRecorder_cooperating) simp_all
  have started: "\<exists>m. getSupportedMimeType (isTypeSupported e) = Some m
      \<and> mediaRecorder (snd (startRecording e s))
          = Some \<lparr>rec_state = Recording, rec_mime = m,
                  rec_mimeType = (if newRecorderDefault e = None then defaultMimeType e
                                  else m)\<rparr>
      \<and> (\<forall>ds p. \<not> list_ex (settles p) (trace (snd (startRecording e s))) \<longrightarrow>
            trace (stop_event (stopRecording None p
                (fold ondataavailable ds (snd (startRecording e s)))))
              = trace (snd (startRecording e s))
                @ [Cleanup, Settled p (Resolved (new_Blob
                     (chunks (fold ondataavailable ds (snd (startRecording e s)))) m))]
          \<and> previewUrl (stop_event (stopRecording None p
                (fold ondataavailable ds (snd (startRecording e s)))))
              = Some (new_Blob
                  (chunks (fold ondataavailable ds (snd (startRecording e s)))) m))"
    if ok: "fst (startRecording e s) = None"
  proof -
    let ?s' = "snd (startRecording e s)"
    from startRecording_recorder [OF ok] obtain m
      where g: "getSupportedMimeType (isTypeSupported e) = Some m"
        and r: "mediaRecorder ?s'
          = Some \<lparr>rec_state = Recording, rec_mime = m,
                  rec_mimeType = (if newRecorderDefault e = None then defaultMimeType e
                                  else m)\<rparr>"
      by blast
    have "trace (stop_event (stopRecording None p (fold ondataavailable ds ?s')))
          = trace ?s' @ [Cleanup, Settled p (Resolved (new_Blob
               (chunks (fold ondataavailable ds ?s')) m))]
        \<and> previewUrl (stop_event (stopRecording None p (fold ondataavailable ds ?s')))
          = Some (new_Blob (chunks (fold ondataavailable ds ?s')) m)"
      if "\<not> list_ex (settles p) (trace ?s')" for ds p
    proof -
      let ?r = "\<lparr>rec_state = Recording, rec_mime = m,
          rec_mimeType = (if newRecorderDefault e = None then defaultMimeType e else m)\<rparr>"
      have m1: "mediaRecorder (fold ondataavailable ds ?s') = Some ?r"
        by (simp add: fold_ondataavailable_keeps r)
      have a1: "rec_state ?r \<noteq> Inactive"
        by simp
      have f1: "\<not> list_ex (settles p) (trace (fold ondataavailable ds ?s'))"
        using that by (simp add: fold_ondataavailable_keeps)
      from natural_stop [OF m1 a1 f1] show ?thesis
        by (simp add: fold_ondataavailable_keeps)
    qed
    with g r show ?thesis
      by blast
  qed
  have inv: "artifacts_typed (run evs (init browserCheck))"
    by (intro artifacts_typed_run artifacts_typed_init)
  have tr: "blob_type b \<in> set types"
    if "Settled p (Resolved b) \<in> set (trace (run evs (init browserCheck)))" for p b
  proof -
    from inv have "list_all typed_effect (trace (run evs (init browserCheck)))"
      by (simp add: artifacts_typed_def)
    with that have "typed_effect (Settled p (Resolved b))"
      by (auto simp: list_all_iff)
    then show ?thesis by simp
  qed
  have pv: "blob_type b \<in> set types" if "previewUrl (run evs (init browserCheck)) = Some b" for b
    using inv that by (simp add: artifacts_typed_def)
  from getSupportedMimeType_priority [of supported] none stage started inv tr pv show ?thesis
    by blast
qed

theorem mime_type_selection_witness:
  "fst (startRecording camera_env (init None)) = None
   \<and> \<not> list_ex (settles 1) (trace (snd (startRecording camera_env (init None))))
   \<and> getSupportedMimeType (isTypeSupported camera_env) = Some ''video/webm''
   \<and> mediaRecorder (snd (startRecording camera_env (init None)))
       = Some \<lparr>rec_state = Recording, rec_mime = ''video/webm'', rec_mimeType = ''video/webm''\<rparr>
   \<and> trace (stop_event (stopRecording None 1
         (fold ondataavailable [Some 1000] (snd (startRecording camera_env (init None))))))
       = [Cleanup, Settled 1 (Resolved \<lparr>blob_size = 1000, blob_type = ''video/webm''\<rparr>)]
   \<and> \<not> isTypeSupported no_mime_env ''video/webm;codecs=vp8,opus''
   \<and> \<not> isTypeSupported no_mime_env ''video/webm;codecs=vp9,opus''
   \<and> \<not> isTypeSupported no_mime_env ''video/webm''
   \<and> \<not> isTypeSupported no_mime_env ''video/mp4''
   \<and> fst (startRecording no_mime_env (init None)) \<noteq> None
   \<and> artifacts_typed (run [StartRecording camera_env, DataAvailable (Some 1000),
         StopRecording None 1, StopEvent] (init None))"
proof -
  let ?s' = "snd (startRecording camera_env (init None))"
  let ?evs = "[StartRecording camera_env, DataAvailable (Some 1000), StopRecording None 1,
      StopEvent]"
  have ok: "fst (startRecording camera_env (init None)) = None"
    by (simp add: camera_start)
  have fresh: "\<not> list_ex (settles 1) (trace ?s')"
    by (simp only: recording_start) (simp add: init_def)
  have g: "getSupportedMimeType (isTypeSupported camera_env) = Some ''video/webm''"
    by (simp add: getSupportedMimeType_def types_def env_defs)
  have ch: "chunks (ondataavailable (Some 1000) ?s') = [1000]" "trace ?s' = []"
    by (simp_all only: recording_start) (simp_all add: ondataavailable_def init_def)
  note c = mime_type_selection [where supported = webm_only and e = camera_env
      and s = "init None" and evs = ?evs and browserCheck = None]
  from c ok obtain m where m: "getSupportedMimeType (isTypeSupported camera_env) = Some m"
    "mediaRecorder ?s' = Some \<lparr>rec_state = Recording, rec_mime = m,
       rec_mimeType = (if newRecorderDefault camera_env = None then defaultMimeType camera_env
                       else m)\<rparr>"
    "\<forall>ds p. \<not> list_ex (settles p) (trace ?s') \<longrightarrow>
       trace (stop_event (stopRecording None p (fold ondataavailable ds ?s')))
         = trace ?s' @ [Cleanup, Settled p (Resolved (new_Blob
              (chunks (fold ondataavailable ds ?s')) m))]
     \<and> previewUrl (stop_event (stopRecording None p (fold ondataavailable ds ?s')))
         = Some (new_Blob (chunks (fold ondataavailable ds ?s')) m)"
    by blast
  from m(1) g have mm: "m = ''video/webm''"
    by simp
  from m(2) have r: "mediaRecorder ?s'
      = Some \<lparr>rec_state = Recording, rec_mime = ''video/webm'', rec_mimeType = ''video/webm''\<rparr>"
    by (simp add: mm env_defs)
  note i = m(3) [THEN spec, of "[Some 1000]", THEN spec, of 1, THEN mp, OF fresh,
      THEN conjunct1]
  have t: "trace (stop_event (stopRecording None 1
      (fold ondataavailable [Some 1000] ?s')))
      = [Cleanup, Settled 1 (Resolved \<lparr>blob_size = 1000, blob_type = ''video/webm''\<rparr>)]"
    unfolding i by (simp add: ch mm new_Blob_def)
  have h: "\<forall>ty\<in>set types. \<not> isTypeSupported no_mime_env ty"
    by (simp add: env_defs)
  note n = mime_type_selection [where supported = webm_only and e = no_mime_env
      and s = "init None" and evs = ?evs and browserCheck = None]
  from n h have f: "fst (startRecording no_mime_env (init None)) \<noteq> None"
    by blast
  from c have a: "artifacts_typed (run ?evs (init None))"
    by blast
  from h have h4: "\<not> isTypeSupported no_mime_env ''video/webm;codecs=vp8,opus''"
    "\<not> isTypeSupported no_mime_env ''video/webm;codecs=vp9,opus''"
    "\<not> isTypeSupported no_mime_env ''video/webm''"
    "\<not> isTypeSupported no_mime_env ''video/mp4''"
    by (simp_all add: types_def)
  from ok fresh g r t h4 f a show ?thesis
    by (intro conjI)
qed

section \<open>Optional sources: the claim\<close>

text \<open>
  Claim C8. On a platform that grants the display with a video track, supports a content
  type, lets the recorder be created and started, and plays and captures the canvas where a
  webcam is used, \<open>startRecording\<close> succeeds whatever the microphone and webcam
  acquisitions answer: nothing is thrown, \<open>error\<close> stays empty, no cleanup runs, the
  session is recording. A failed acquisition leaves exactly one warning with its reason on
  the console; a failed microphone is missing from the mix, and after a failed webcam no
  webcam stream is held and the raw display track is recorded. Whatever \<open>startRecording\<close>
  throws on any platform is one of its own errors or the failure of the display
  acquisition, of a \<open>play()\<close> call or of the recorder: never the reason of a microphone or
  webcam failure.
\<close>

theorem optional_sources_non_fatal:
  "(isBrowserSupported s \<and> displayMedia e = Inr ds \<and> videoTracks ds \<noteq> []
      \<and> displayPlay e = None \<and> webcamPlay e = None \<and> canvasCapture e
      \<and> getSupportedMimeType (isTypeSupported e) = Some m
      \<and> (newRecorderDefault e = None \<or> newRecorderMime e = None) \<and> recorderStart e = None
    \<longrightarrow>
      fst (startRecording e s) = None
    \<and> error (snd (startRecording e s)) = None
    \<and> isRecording (snd (startRecording e s))
    \<and> mediaRecorder (snd (startRecording e s)) = Some \<lparr>rec_state = Recording, rec_mime = m,
              rec_mimeType = (if newRecorderDefault e = None then defaultMimeType e else m)\<rparr>
    \<and> trace (snd (startRecording e s)) = trace s
    \<and> console (snd (startRecording e s))
        = console s
          @ (case micMedia e of
               Inl micError \<Rightarrow> [ConsoleWarn ''Could not access microphone:'' (Some micError)]
             | Inr mic \<Rightarrow> [])
          @ (case camMedia e of
               Inl camError \<Rightarrow>
                 if webcamEnabled s \<and> webcamStream s = None
                 then [ConsoleWarn ''Could not access webcam:'' (Some camError)] else []
             | Inr cam \<Rightarrow> [])
    \<and> webcamStream (snd (startRecording e s))
        = (case camMedia e of
             Inr cam \<Rightarrow> if webcamEnabled s \<and> webcamStream s = None then Some cam
                        else webcamStream s
           | Inl camError \<Rightarrow> webcamStream s)
    \<and> mediaStream (snd (startRecording e s))
        = Some ((if webcamStream (snd (startRecording e s)) = None then RawDisplayVideo
                 else CanvasVideo)
                # (if 0 < audioTracks ds \<or> \<not> isl (micMedia e)
                   then [MixedAudio (0 < audioTracks ds) (\<not> isl (micMedia e))] else [])))
   \<and> (\<forall>err. fst (startRecording e s) = Some err \<longrightarrow>
          err = new_Error ''Browser does not support screen recording''
        \<or> displayMedia e = Inl err
        \<or> err = new_Error ''No video track available from screen capture''
        \<or> displayPlay e = Some err \<or> webcamPlay e = Some err
        \<or> err = new_Error ''Failed to capture video from compositing canvas''
        \<or> err = new_Error ''No supported video MIME type found''
        \<or> newRecorderMime e = Some err \<or> recorderStart e = Some err)"
proof -
  have A: "fst (startRecording e s) = None
    \<and> error (snd (startRecording e s)) = None
    \<and> isRecording (snd (startRecording e s))
    \<and> mediaRecorder (snd (startRecording e s)) = Some \<lparr>rec_state = Recording, rec_mime = m,
              rec_mimeType = (if newRecorderDefault e = None then defaultMimeType e else m)\<rparr>
    \<and> trace (snd (startRecording e s)) = trace s
    \<and> console (snd (startRecording e s))
        = console s
          @ (case micMedia e of
               Inl micError \<Rightarrow> [ConsoleWarn ''Could not access microphone:'' (Some micError)]
             | Inr mic \<Rightarrow> [])
          @ (case camMedia e of
               Inl camError \<Rightarrow>
                 if webcamEnabled s \<and> webcamStream s = None
                 then [ConsoleWarn ''Could not access webcam:'' (Some camError)] else []
             | Inr cam \<Rightarrow> [])
    \<and> webcamStream (snd (startRecording e s))
        = (case camMedia e of
             Inr cam \<Rightarrow> if webcamEnabled s \<and> webcamStream s = None then Some cam
                        else webcamStream s
           | Inl camError \<Rightarrow> webcamStream s)
    \<and> mediaStream (snd (startRecording e s))
        = Some ((if webcamStream (snd (startRecording e s)) = None then RawDisplayVideo
                 else CanvasVideo)
                # (if 0 < audioTracks ds \<or> \<not> isl (micMedia e)
                   then [MixedAudio (0 < audioTracks ds) (\<not> isl (micMedia e))] else []))"
    if sup: "isBrowserSupported s" and ds: "displayMedia e = Inr ds"
      and vt: "videoTracks ds \<noteq> []"
      and pl: "displayPlay e = None" "webcamPlay e = None" "canvasCapture e"
      and ty: "getSupportedMimeType (isTypeSupported e) = Some m"
      and rc: "newRecorderDefault e = None \<or> newRecorderMime e = None" "recorderStart e = None"
  proof -
    let ?s0 = "s\<lparr>error := None, chunks := [], displayStream := Some ds\<rparr>"
    let ?s1 = "snd (acquireOptional e ds ?s0)"
    let ?audio = "if 0 < audioTracks ds \<or> \<not> isl (micMedia e)
                  then [MixedAudio (0 < audioTracks ds) (\<not> isl (micMedia e))] else []"
    note tr = startRecording_try_eq [OF ds, of s]
    note cr = createRecorder_cooperating [OF ty rc]
    have fa: "(case fst (acquireOptional e ds ?s0) of Some audio \<Rightarrow> audio | None \<Rightarrow> []) = ?audio"
      by (simp add: acquireOptional_eq Let_def)
    have s1: "error ?s1 = None" "trace ?s1 = trace s"
      "console ?s1 = console s
          @ (case micMedia e of
               Inl micError \<Rightarrow> [ConsoleWarn ''Could not access microphone:'' (Some micError)]
             | Inr mic \<Rightarrow> [])
          @ (case camMedia e of
               Inl camError \<Rightarrow>
                 if webcamEnabled s \<and> webcamStream s = None
                 then [ConsoleWarn ''Could not access webcam:'' (Some camError)] else []
             | Inr cam \<Rightarrow> [])"
      "webcamStream ?s1
        = (case camMedia e of
             Inr cam \<Rightarrow> if webcamEnabled s \<and> webcamStream s = None then Some cam
                        else webcamStream s
           | Inl camError \<Rightarrow> webcamStream s)"
      by (simp_all add: acquireOptional_eq Let_def cong: sum.case_cong if_cong)
    obtain v s2 where cv: "chooseVideoTrack e ds ?s1 = Inr (v, s2)"
      and v: "v = (if webcamStream ?s1 = None then RawDisplayVideo else CanvasVideo)"
    proof (cases "webcamStream ?s1")
      case None
      with vt that [of RawDisplayVideo ?s1] show ?thesis
        by (simp add: chooseVideoTrack_no_webcam)
    next
      case (Some c)
      obtain t rest where "videoTracks ds = t # rest"
        using vt by (cases "videoTracks ds") simp_all
      from chooseVideoTrack_webcam [OF Some this, of e] pl Some that show ?thesis
        by simp
    qed
    from chooseVideoTrack_keeps [of e ds ?s1 _ s2 v] cv
    have k: "trace s2 = trace ?s1" "console s2 = console ?s1" "error s2 = error ?s1"
      "webcamStream s2 = webcamStream ?s1"
      by simp_all
    have res: "startRecording_try e s
        = (None, startTimer (s2\<lparr>mediaStream := Some (v # ?audio),
             mediaRecorder := Some \<lparr>rec_state = Recording, rec_mime = m,
              rec_mimeType = (if newRecorderDefault e = None then defaultMimeType e else m)\<rparr>,
             isRecording := True\<rparr>))"
      by (simp add: tr cv fa cr)
    have st: "startRecording e s = startRecording_try e s"
      using sup by (simp add: startRecording_def res)
    show ?thesis
      unfolding st res
      using k s1 v by (simp add: startTimer_def)
  qed
  have B: "err = new_Error ''Browser does not support screen recording''
        \<or> displayMedia e = Inl err
        \<or> err = new_Error ''No video track available from screen capture''
        \<or> displayPlay e = Some err \<or> webcamPlay e = Some err
        \<or> err = new_Error ''Failed to capture video from compositing canvas''
        \<or> err = new_Error ''No supported video MIME type found''
        \<or> newRecorderMime e = Some err \<or> recorderStart e = Some err"
    if "fst (startRecording e s) = Some err" for err
    using startRecording_thrown [OF that] startRecording_try_thrown [of e s err]
    by blast
  from A B show ?thesis
    by blast
qed

theorem optional_sources_non_fatal_witness:
  "isBrowserSupported (init None) \<and> displayMedia no_camera_env = Inr display_4k
   \<and> videoTracks display_4k \<noteq> []
   \<and> displayPlay no_camera_env = None \<and> webcamPlay no_camera_env = None
   \<and> canvasCapture no_camera_env
   \<and> getSupportedMimeType (isTypeSupported no_camera_env) = Some ''video/webm''
   \<and> newRecorderDefault no_camera_env = None \<and> recorderStart no_camera_env = None
   \<and> micMedia no_camera_env = Inl (ErrorObj ''NotAllowedError'' ''Permission denied'')
   \<and> camMedia no_camera_env = Inl (ErrorObj ''NotFoundError'' ''No camera'')
   \<and> fst (startRecording no_camera_env (init None)) = None
   \<and> error (snd (startRecording no_camera_env (init None))) = None
   \<and> isRecording (snd (startRecording no_camera_env (init None)))
   \<and> console (snd (startRecording no_camera_env (init None)))
       = [ConsoleWarn ''Could not access microphone:''
            (Some (ErrorObj ''NotAllowedError'' ''Permission denied'')),
          ConsoleWarn ''Could not access webcam:''
            (Some (ErrorObj ''NotFoundError'' ''No camera''))]
   \<and> mediaStream (snd (startRecording no_camera_env (init None)))
       = Some [RawDisplayVideo, MixedAudio True False]"
proof -
  have e: "displayMedia no_camera_env = Inr display_4k"
    "displayPlay no_camera_env = None" "webcamPlay no_camera_env = None"
    "canvasCapture no_camera_env"
    "getSupportedMimeType (isTypeSupported no_camera_env) = Some ''video/webm''"
    "newRecorderDefault no_camera_env = None" "recorderStart no_camera_env = None"
    "micMedia no_camera_env = Inl (ErrorObj ''NotAllowedError'' ''Permission denied'')"
    "camMedia no_camera_env = Inl (ErrorObj ''NotFoundError'' ''No camera'')"
    by (simp_all add: env_defs getSupportedMimeType_def types_def)
  have d: "videoTracks display_4k \<noteq> []" "audioTracks display_4k = 1"
    by (simp_all add: display_4k_def)
  have i: "isBrowserSupported (init None)" "webcamEnabled (init None)"
    "webcamStream (init None) = None" "console (init None) = []"
    by (simp_all add: init_def)
  have H: "isBrowserSupported (init None) \<and> displayMedia no_camera_env = Inr display_4k
      \<and> videoTracks display_4k \<noteq> []
      \<and> displayPlay no_camera_env = None \<and> webcamPlay no_camera_env = None
      \<and> canvasCapture no_camera_env
      \<and> getSupportedMimeType (isTypeSupported no_camera_env) = Some ''video/webm''
      \<and> (newRecorderDefault no_camera_env = None \<or> newRecorderMime no_camera_env = None)
      \<and> recorderStart no_camera_env = None"
    using e d i by simp
  note c = optional_sources_non_fatal [where e = no_camera_env and s = "init None" and ds = display_4k
      and m = "''video/webm''", THEN conjunct1, THEN mp, OF H]
  from c have r: "fst (startRecording no_camera_env (init None)) = None"
    "error (snd (startRecording no_camera_env (init None))) = None"
    "isRecording (snd (startRecording no_camera_env (init None)))"
    by blast+
  from c have w: "webcamStream (snd (startRecording no_camera_env (init None))) = None"
    by (simp add: e i)
  from c have l: "console (snd (startRecording no_camera_env (init None)))
       = [ConsoleWarn ''Could not access microphone:''
            (Some (ErrorObj ''NotAllowedError'' ''Permission denied'')),
          ConsoleWarn ''Could not access webcam:''
            (Some (ErrorObj ''NotFoundError'' ''No camera''))]"
    by (simp add: e i)
  from c have "mediaStream (snd (startRecording no_camera_env (init None)))
        = Some ((if webcamStream (snd (startRecording no_camera_env (init None))) = None
                 then RawDisplayVideo else CanvasVideo)
                # (if 0 < audioTracks display_4k \<or> \<not> isl (micMedia no_camera_env)
                   then [MixedAudio (0 < audioTracks display_4k) (\<not> isl (micMedia no_camera_env))]
                   else []))"
    by blast
  then have ms: "mediaStream (snd (startRecording no_camera_env (init None)))
       = Some [RawDisplayVideo, MixedAudio True False]"
    by (simp add: w d e)
  from e d i r l ms show ?thesis
    by simp
qed

end
